theory Spec2Isabelle
  imports Complex_Main
begin

section \<open>Python and numpy values\<close>

text \<open>
  The exceptions that \<open>PSO.py\<close> can raise (none is caught anywhere in the file):
  a missing dictionary key, a numpy shape mismatch or a negative array size, a float
  where an integer is required, and an index outside an array.
\<close>

datatype error = KeyError | ValueError | TypeError | IndexError

text \<open>
  A value stored in the \<open>params\<close> dictionary: a Python int (\<open>True\<close> is the int 1)
  or a Python float.  Python compares the two numerically, so \<open>1 == 1.0\<close>.
\<close>

datatype pyval = PyInt int | PyFloat real

fun as_real :: "pyval \<Rightarrow> real" where
  "as_real (PyInt n) = of_int n"
| "as_real (PyFloat x) = x"

definition truthy :: "pyval \<Rightarrow> bool" where
  "truthy v = (as_real v \<noteq> 0)"

definition py_eq :: "pyval \<Rightarrow> int \<Rightarrow> bool" where
  "py_eq v n = (as_real v = of_int n)"

type_synonym params = "string \<rightharpoonup> pyval"

definition lookup :: "params \<Rightarrow> string \<Rightarrow> error + pyval" where
  "lookup d key = (case d key of None \<Rightarrow> Inl KeyError | Some v \<Rightarrow> Inr v)"

text \<open>Sequencing of computations that may raise: the first exception propagates.\<close>

fun ebind :: "error + 'a \<Rightarrow> ('a \<Rightarrow> error + 'b) \<Rightarrow> error + 'b" where
  "ebind (Inl e) f = Inl e"
| "ebind (Inr x) f = f x"

text \<open>
  A float that may be \<open>float('inf')\<close>: the type of \<open>pbest_value\<close>, \<open>gbest_value\<close>
  and of the entries of \<open>best_costs\<close>.  The cost function itself returns a real number.
\<close>

datatype xreal = Fin real | PInf

instantiation xreal :: linorder
begin

fun less_eq_xreal :: "xreal \<Rightarrow> xreal \<Rightarrow> bool" where
  "less_eq_xreal a PInf = True"
| "less_eq_xreal PInf (Fin y) = False"
| "less_eq_xreal (Fin x) (Fin y) = (x \<le> y)"

definition less_xreal :: "xreal \<Rightarrow> xreal \<Rightarrow> bool" where
  "less_xreal a b = (a \<le> b \<and> \<not> b \<le> a)"

instance
proof
  fix x y z :: xreal
  show "(x < y) = (x \<le> y \<and> \<not> y \<le> x)"
    by (simp add: less_xreal_def)
  show "x \<le> x"
    by (cases x) simp_all
  show "x \<le> y \<Longrightarrow> y \<le> z \<Longrightarrow> x \<le> z"
    by (cases x; cases y; cases z) simp_all
  show "x \<le> y \<Longrightarrow> y \<le> x \<Longrightarrow> x = y"
    by (cases x; cases y) simp_all
  show "x \<le> y \<or> y \<le> x"
    by (cases x; cases y) auto
qed

end

text \<open>
  \<open>np.abs(a - b) < 0.0001\<close> on such floats: \<open>inf - inf\<close> is \<open>nan\<close> and
  \<open>inf - x\<close> is \<open>inf\<close>, and neither is below the threshold.
\<close>

fun np_abs_diff_lt :: "xreal \<Rightarrow> xreal \<Rightarrow> bool" where
  "np_abs_diff_lt (Fin x) (Fin y) = (\<bar>x - y\<bar> < 1 / 10000)"
| "np_abs_diff_lt a b = False"

text \<open>
  Elementwise numpy arithmetic on one-dimensional arrays.  Equal shapes combine
  pointwise, an array of length one is broadcast against the other, and any other
  pair of shapes raises \<open>ValueError\<close>.
\<close>

definition broadcast2 :: "('a \<Rightarrow> 'b \<Rightarrow> 'c) \<Rightarrow> 'a list \<Rightarrow> 'b list \<Rightarrow> error + 'c list" where
  "broadcast2 f xs ys =
     (if length xs = length ys then Inr (map2 f xs ys)
      else if length xs = 1 then Inr (map (f (hd xs)) ys)
      else if length ys = 1 then Inr (map (\<lambda>x. f x (hd ys)) xs)
      else Inl ValueError)"

text \<open>
  \<open>np.max([a, b], axis=0)\<close> and \<open>np.min([a, b], axis=0)\<close> first stack the two arrays
  into one two-row array, which numpy refuses (\<open>ValueError\<close>, inhomogeneous shape)
  unless they have the same length; no broadcasting takes place here.
\<close>

definition np_max2 :: "real list \<Rightarrow> real list \<Rightarrow> error + real list" where
  "np_max2 a b = (if length a = length b then Inr (map2 max a b) else Inl ValueError)"

definition np_min2 :: "real list \<Rightarrow> real list \<Rightarrow> error + real list" where
  "np_min2 a b = (if length a = length b then Inr (map2 min a b) else Inl ValueError)"

text \<open>
  The random generator is the sequence \<open>u\<close> of its successive uniform draws from
  \<open>[0,1)\<close> (fixed by the seed) together with the number \<open>k\<close> of draws consumed so far.

  \<open>np.random.uniform(low=low, high=high, size=[1, n])[0]\<close> consumes \<open>n\<close> draws and
  returns \<open>low + (high - low) * draw\<close> elementwise; \<open>low\<close> and \<open>high\<close> must each
  have length \<open>n\<close> or length one (a scalar is a list of length one).
\<close>

definition pick :: "real list \<Rightarrow> nat \<Rightarrow> real" where
  "pick xs j = (if length xs = 1 then hd xs else xs ! j)"

definition np_random_uniform ::
  "real list \<Rightarrow> real list \<Rightarrow> nat \<Rightarrow> (nat \<Rightarrow> real) \<Rightarrow> nat \<Rightarrow> error + (real list \<times> nat)" where
  "np_random_uniform low high n u k =
     (if (length low = n \<or> length low = 1) \<and> (length high = n \<or> length high = 1)
      then Inr (map (\<lambda>j. pick low j + (pick high j - pick low j) * u (k + j)) [0..<n], k + n)
      else Inl ValueError)"

section \<open>Configuration defaulting\<close>

text \<open>
  \<open>default_PSO_params\<close>, statement by statement.  A key is added only by the
  branches the source has: \<open>con\<close> only when both \<open>wdamp\<close> and \<open>w\<close> differ from 1,
  and \<open>velocity_limit_scale\<close> by an \<open>if\<close>/\<open>elif\<close> whose second branch does not look
  at whether the key is present.  Both read keys that the statements before them
  have just filled in (\<open>w\<close>, \<open>wdamp\<close>, \<open>BPSO\<close>), so the \<open>None\<close> cases of those
  reads are never reached from \<open>default_PSO_params\<close>.
\<close>

definition set_default :: "params \<Rightarrow> string \<Rightarrow> pyval \<Rightarrow> params" where
  "set_default d key v = (if d key = None then d(key \<mapsto> v) else d)"

definition default_con :: "params \<Rightarrow> params" where
  "default_con d =
     (case (d ''wdamp'', d ''w'') of
        (Some wdamp, Some w) \<Rightarrow>
          if d ''con'' = None \<and> \<not> py_eq wdamp 1 \<and> \<not> py_eq w 1
          then d(''con'' \<mapsto> PyFloat (7298437881283576 / 10000000000000000))
          else d
      | _ \<Rightarrow> d)"

definition default_velocity_limit_scale :: "params \<Rightarrow> params" where
  "default_velocity_limit_scale d =
     (case d ''BPSO'' of
        Some BPSO \<Rightarrow>
          if d ''velocity_limit_scale'' = None \<and> py_eq BPSO 0
          then d(''velocity_limit_scale'' \<mapsto> PyFloat (2 / 10))
          else if py_eq BPSO 1
          then d(''velocity_limit_scale'' \<mapsto> PyInt 1)
          else d
      | None \<Rightarrow> d)"

definition default_PSO_params :: "params \<Rightarrow> params" where
  "default_PSO_params params0 =
     (let d = set_default params0 ''maxit'' (PyInt 30);
          d = set_default d ''n_part'' (PyInt 15);
          d = set_default d ''w'' (PyInt 1);
          d = set_default d ''wdamp'' (PyInt 1);
          d = set_default d ''c1'' (PyFloat (205 / 100));
          d = set_default d ''c2'' (PyFloat (205 / 100));
          d = default_con d;
          d = set_default d ''display_info'' (PyInt 1);
          d = set_default d ''early_stopping'' (PyInt 0);
          d = set_default d ''early_stopping_rounds'' (PyInt 10);
          d = set_default d ''BPSO'' (PyInt 0);
          d = default_velocity_limit_scale d
      in d)"

section \<open>Particles\<close>

text \<open>
  The class \<open>Particle\<close>.  Arrays are lists of reals; in binary mode
  \<open>update_position\<close> stores the integers 0 and 1, which numpy converts to floats
  wherever they meet other floats.  The constructor stores the scalar 0 in the three
  array attributes (a scalar behaves as an array of length one); all three are
  overwritten by \<open>initial_position\<close> before they are read.
\<close>

record particle =
  position :: "real list"
  velocity :: "real list"
  pbest_position :: "real list"
  pbest_value :: xreal

definition Particle :: particle where
  "Particle = \<lparr>position = [0], velocity = [0], pbest_position = [0], pbest_value = PInf\<rparr>"

definition initial_position ::
  "particle \<Rightarrow> real list \<Rightarrow> real list \<Rightarrow> pyval \<Rightarrow> (nat \<Rightarrow> real) \<Rightarrow> nat \<Rightarrow> error + (particle \<times> nat)" where
  "initial_position self varmin varmax BPSO u k =
     ebind (if \<not> truthy BPSO
            then np_random_uniform varmin varmax (length varmin) u k
            else np_random_uniform [0] [1] (length varmin) u k) (\<lambda>(pos, k1).
     ebind (np_random_uniform varmin varmax (length varmin) u k1) (\<lambda>(vel, k2).
     Inr (self\<lparr>position := pos, pbest_position := pos, velocity := vel\<rparr>, k2)))"

text \<open>
  \<open>update_velocity\<close>: the two calls of \<open>np.random.rand()\<close> are the draws \<open>u k\<close>
  and \<open>u (k + 1)\<close>, in the order Python evaluates the sum.
\<close>

definition update_velocity ::
  "particle \<Rightarrow> real \<Rightarrow> real \<Rightarrow> real \<Rightarrow> real \<Rightarrow> real list \<Rightarrow> real list \<Rightarrow> real list \<Rightarrow>
   (nat \<Rightarrow> real) \<Rightarrow> nat \<Rightarrow> error + (particle \<times> nat)" where
  "update_velocity self con w c1 c2 gbest_position min_velocity max_velocity u k =
     (let r1 = u k; r2 = u (k + 1) in
      ebind (broadcast2 (-) (pbest_position self) (position self)) (\<lambda>to_pbest.
      ebind (broadcast2 (+) (map (\<lambda>v. w * v) (velocity self))
                            (map (\<lambda>d. c1 * r1 * d) to_pbest)) (\<lambda>acc.
      ebind (broadcast2 (-) gbest_position (position self)) (\<lambda>to_gbest.
      ebind (broadcast2 (+) acc (map (\<lambda>d. c2 * r2 * d) to_gbest)) (\<lambda>total.
      ebind (np_max2 (map (\<lambda>t. con * t) total) min_velocity) (\<lambda>v1.
      ebind (np_min2 v1 max_velocity) (\<lambda>v2.
      Inr (self\<lparr>velocity := v2\<rparr>, k + 2))))))))"

definition sigmoid :: "real \<Rightarrow> real" where
  "sigmoid x = 1 / (1 + exp (- x))"

text \<open>
  \<open>update_position\<close>: in binary mode the list comprehension draws one number per
  component, in order.
\<close>

definition update_position ::
  "particle \<Rightarrow> real list \<Rightarrow> real list \<Rightarrow> pyval \<Rightarrow> (nat \<Rightarrow> real) \<Rightarrow> nat \<Rightarrow> error + (particle \<times> nat)" where
  "update_position self varmin varmax BPSO u k =
     (if \<not> truthy BPSO then
        ebind (broadcast2 (+) (position self) (velocity self)) (\<lambda>p0.
        ebind (np_max2 p0 varmin) (\<lambda>p1.
        ebind (np_min2 p1 varmax) (\<lambda>p2.
        Inr (self\<lparr>position := p2\<rparr>, k))))
      else
        (let sig_velocity = map sigmoid (velocity self) in
         Inr (self\<lparr>position :=
                map (\<lambda>j. if u (k + j) < sig_velocity ! j then 1 else 0) [0..<length sig_velocity]\<rparr>,
              k + length sig_velocity)))"

section \<open>Particles by reference\<close>

text \<open>
  Python names and attributes hold references to arrays.  To say which arrays are
  shared, the arrays live in a store: the array at address \<open>a\<close> is \<open>h ! a\<close>, and a
  new array goes to the end of the store, so that no address is ever used twice.  A
  particle is then four attributes, three of them addresses.
\<close>

type_synonym addr = nat

type_synonym heap = "real list list"

definition alloc :: "heap \<Rightarrow> real list \<Rightarrow> addr \<times> heap" where
  "alloc h xs = (length h, h @ [xs])"

record ref_particle =
  position_at :: addr
  velocity_at :: addr
  pbest_position_at :: addr
  pbest_value_at :: xreal

text \<open>The particle that the references of \<open>rp\<close> denote in the store \<open>h\<close>.\<close>

definition deref :: "heap \<Rightarrow> ref_particle \<Rightarrow> particle" where
  "deref h rp = \<lparr>position = h ! position_at rp, velocity = h ! velocity_at rp,
                 pbest_position = h ! pbest_position_at rp, pbest_value = pbest_value_at rp\<rparr>"

text \<open>
  Both update methods build their result with numpy expressions, each of which makes a
  new array, and bind the attribute to it: \<open>self.velocity = ...\<close>,
  \<open>self.position = ...\<close>.  No statement of \<open>PSO.py\<close> writes into an array of a
  particle in place.  The arrays of intermediate results are not kept in the store.
\<close>

definition ref_update_velocity ::
  "heap \<Rightarrow> ref_particle \<Rightarrow> real \<Rightarrow> real \<Rightarrow> real \<Rightarrow> real \<Rightarrow> addr \<Rightarrow> real list \<Rightarrow> real list \<Rightarrow>
   (nat \<Rightarrow> real) \<Rightarrow> nat \<Rightarrow> error + (ref_particle \<times> heap \<times> nat)" where
  "ref_update_velocity h self con w c1 c2 gbest_at min_velocity max_velocity u k =
     ebind (update_velocity (deref h self) con w c1 c2 (h ! gbest_at) min_velocity max_velocity u k)
       (\<lambda>(p, k1). case alloc h (velocity p) of (a, h1) \<Rightarrow> Inr (self\<lparr>velocity_at := a\<rparr>, h1, k1))"

definition ref_update_position ::
  "heap \<Rightarrow> ref_particle \<Rightarrow> real list \<Rightarrow> real list \<Rightarrow> pyval \<Rightarrow> (nat \<Rightarrow> real) \<Rightarrow> nat \<Rightarrow>
   error + (ref_particle \<times> heap \<times> nat)" where
  "ref_update_position h self varmin varmax BPSO u k =
     ebind (update_position (deref h self) varmin varmax BPSO u k)
       (\<lambda>(p, k1). case alloc h (position p) of (a, h1) \<Rightarrow> Inr (self\<lparr>position_at := a\<rparr>, h1, k1))"

section \<open>The optimiser\<close>

text \<open>A \<open>for\<close> loop whose body may raise.\<close>

fun efold :: "('x \<Rightarrow> 's \<Rightarrow> error + 's) \<Rightarrow> 'x list \<Rightarrow> 's \<Rightarrow> error + 's" where
  "efold f [] s = Inr s"
| "efold f (x # xs) s = ebind (f x s) (efold f xs)"

text \<open>
  \<open>examine_particles\<close>: \<open>==\<close> and \<open>!=\<close> are numpy's elementwise comparisons.  The
  result is the pair (\<open>number_converged\<close>, \<open>particle_hamming_distance\<close>).
\<close>

definition examine_one :: "real list \<Rightarrow> particle \<Rightarrow> nat \<times> nat list \<Rightarrow> error + (nat \<times> nat list)" where
  "examine_one gbest_position p acc =
     (case acc of (converged, ham_dist) \<Rightarrow>
      ebind (broadcast2 (=) (position p) gbest_position) (\<lambda>eqs.
      ebind (broadcast2 (\<noteq>) (position p) gbest_position) (\<lambda>neqs.
      Inr (if list_all id eqs then converged + 1 else converged,
           ham_dist @ [length (filter id neqs)]))))"

definition examine_particles :: "particle list \<Rightarrow> real list \<Rightarrow> error + (nat \<times> nat list)" where
  "examine_particles particles_vector gbest_position =
     efold (examine_one gbest_position) particles_vector (0, [])"

text \<open>Python integers where the source needs them: \<open>range\<close>, \<open>np.zeros\<close>, array indices.\<close>

fun py_range :: "pyval \<Rightarrow> error + nat" where
  "py_range (PyInt n) = Inr (nat n)"
| "py_range (PyFloat x) = Inl TypeError"

fun np_zeros_succ :: "pyval \<Rightarrow> error + xreal list" where
  "np_zeros_succ (PyInt n) = (if n + 1 < 0 then Inl ValueError else Inr (replicate (nat (n + 1)) (Fin 0)))"
| "np_zeros_succ (PyFloat x) = Inl TypeError"

definition norm_index :: "nat \<Rightarrow> int \<Rightarrow> error + nat" where
  "norm_index n i =
     (if 0 \<le> i \<and> i < int n then Inr (nat i)
      else if - int n \<le> i \<and> i < 0 then Inr (nat (int n + i))
      else Inl IndexError)"

definition getitem :: "'v list \<Rightarrow> int \<Rightarrow> error + 'v" where
  "getitem xs i = ebind (norm_index (length xs) i) (\<lambda>j. Inr (xs ! j))"

definition setitem :: "'v list \<Rightarrow> int \<Rightarrow> 'v \<Rightarrow> error + 'v list" where
  "setitem xs i v = ebind (norm_index (length xs) i) (\<lambda>j. Inr (xs[j := v]))"

fun index_minus :: "int \<Rightarrow> pyval \<Rightarrow> error + int" where
  "index_minus i (PyInt r) = Inr (i - r)"
| "index_minus i (PyFloat x) = Inl IndexError"

text \<open>
  The names \<open>PSO\<close> binds once and only reads afterwards, and the generator's draws.
\<close>

record 'a problem =
  problem_cost_function :: "real list \<Rightarrow> 'a \<Rightarrow> real"
  problem_varmin :: "real list"
  problem_varmax :: "real list"

record 'a ctx =
  cost_function :: "real list \<Rightarrow> 'a \<Rightarrow> real"
  args :: 'a
  varmin :: "real list"
  varmax :: "real list"
  params :: params
  con :: real
  c1 :: real
  c2 :: real
  wdamp :: real
  min_velocity :: "real list"
  max_velocity :: "real list"
  draws :: "nat \<Rightarrow> real"

text \<open>
  The names \<open>PSO\<close> rebinds while it runs, and the position \<open>rng\<close> of the generator.
  \<open>best_costs\<close> and \<open>particle_debug\<close> are empty until the source creates them.
  \<open>iterations\<close> is not a variable of the source: it counts the passes of the main
  loop that have run, that is the loop variable \<open>it\<close> plus one.
\<close>

record swarm =
  particles_vector :: "particle list"
  gbest_value :: xreal
  gbest_position :: "real list"
  best_costs :: "xreal list"
  w :: real
  particle_debug :: "(nat \<times> nat list) list"
  rng :: nat
  iterations :: nat

text \<open>
  The body of the initialisation loop, for the particle at index \<open>i\<close>: the draw of
  its position and velocity, then the cost at that position, which becomes the
  particle's best and, if it is below the swarm's best, the swarm's as well.
\<close>

definition seed_bests :: "'a ctx \<Rightarrow> nat \<Rightarrow> particle \<Rightarrow> swarm \<Rightarrow> swarm" where
  "seed_bests L i p1 s =
     (let p2 = p1\<lparr>pbest_position := position p1\<rparr>;
          p3 = p2\<lparr>pbest_value := Fin (cost_function L (position p2) (args L))\<rparr>;
          s1 = s\<lparr>particles_vector := (particles_vector s)[i := p3]\<rparr>
      in if pbest_value p3 < gbest_value s1
         then s1\<lparr>gbest_value := pbest_value p3, gbest_position := pbest_position p3\<rparr>
         else s1)"

definition init_particle :: "'a ctx \<Rightarrow> nat \<Rightarrow> swarm \<Rightarrow> error + swarm" where
  "init_particle L i s =
     ebind (lookup (params L) ''BPSO'') (\<lambda>BPSO.
     ebind (initial_position (particles_vector s ! i) (varmin L) (varmax L) BPSO (draws L) (rng s))
       (\<lambda>(p1, k1).
     Inr (seed_bests L i p1 (s\<lparr>rng := k1\<rparr>))))"

text \<open>
  The body of the inner loop of an iteration, for the particle at index \<open>i\<close>: the
  two updates, then the cost at the new position and the two comparisons.
\<close>

definition compare_cost :: "'a ctx \<Rightarrow> nat \<Rightarrow> particle \<Rightarrow> swarm \<Rightarrow> swarm" where
  "compare_cost L i p2 s =
     (let cost_at_new_position = Fin (cost_function L (position p2) (args L)) in
      if cost_at_new_position < pbest_value p2 then
        (let p3 = p2\<lparr>pbest_value := cost_at_new_position, pbest_position := position p2\<rparr>;
             s1 = s\<lparr>particles_vector := (particles_vector s)[i := p3]\<rparr>
         in if cost_at_new_position < gbest_value s1
            then s1\<lparr>gbest_value := cost_at_new_position, gbest_position := pbest_position p3\<rparr>
            else s1)
      else s\<lparr>particles_vector := (particles_vector s)[i := p2]\<rparr>)"

definition particle_step :: "'a ctx \<Rightarrow> nat \<Rightarrow> swarm \<Rightarrow> error + swarm" where
  "particle_step L i s =
     ebind (update_velocity (particles_vector s ! i) (con L) (w s) (c1 L) (c2 L)
              (gbest_position s) (min_velocity L) (max_velocity L) (draws L) (rng s))
       (\<lambda>(p1, k1).
     ebind (lookup (params L) ''BPSO'') (\<lambda>BPSO.
     ebind (update_position p1 (varmin L) (varmax L) BPSO (draws L) k1) (\<lambda>(p2, k2).
     Inr (compare_cost L i p2 (s\<lparr>rng := k2\<rparr>)))))"

text \<open>
  The early-stopping test at the end of iteration \<open>it\<close>; \<open>and\<close> evaluates its
  right operand only when the left one is true.
\<close>

definition early_stop :: "'a ctx \<Rightarrow> nat \<Rightarrow> xreal list \<Rightarrow> error + bool" where
  "early_stop L it bc =
     ebind (lookup (params L) ''early_stopping'') (\<lambda>early_stopping.
     if \<not> truthy early_stopping then Inr False
     else
     ebind (lookup (params L) ''early_stopping_rounds'') (\<lambda>rounds.
     if \<not> as_real rounds < real it then Inr False
     else
     ebind (getitem bc (int it + 1)) (\<lambda>a.
     ebind (index_minus (int it + 1) rounds) (\<lambda>j.
     ebind (getitem bc j) (\<lambda>b.
     Inr (np_abs_diff_lt a b))))))"

text \<open>
  One pass of the main loop.  The boolean says whether the pass ended in the early
  \<open>return\<close>.  Printing is left out.
\<close>

definition iteration :: "'a ctx \<Rightarrow> nat \<Rightarrow> swarm \<Rightarrow> error + (swarm \<times> bool)" where
  "iteration L it s =
     ebind (examine_particles (particles_vector s) (gbest_position s)) (\<lambda>dbg.
     let s1 = s\<lparr>particle_debug := particle_debug s @ [dbg]\<rparr> in
     ebind (efold (particle_step L) [0..<length (particles_vector s1)] s1) (\<lambda>s2.
     ebind (setitem (best_costs s2) (int it + 1) (gbest_value s2)) (\<lambda>bc.
     let s3 = s2\<lparr>best_costs := bc, w := w s2 * wdamp L, iterations := it + 1\<rparr> in
     ebind (early_stop L it bc) (\<lambda>stop.
     Inr (s3, stop)))))"

fun main_loop :: "'a ctx \<Rightarrow> nat list \<Rightarrow> swarm \<Rightarrow> error + swarm" where
  "main_loop L [] s = Inr s"
| "main_loop L (it # its) s =
     ebind (iteration L it s) (\<lambda>(s1, stop). if stop then Inr s1 else main_loop L its s1)"

text \<open>
  The state when the initialisation loop starts: \<open>n_part\<close> fresh particles, no best
  yet, and the inertia weight the caller chose.
\<close>

definition start_state :: "nat \<Rightarrow> real \<Rightarrow> swarm" where
  "start_state n w0 = \<lparr>particles_vector = replicate n Particle, gbest_value = PInf,
                gbest_position = [], best_costs = [], w = w0,
                particle_debug = [], rng = 0, iterations = 0\<rparr>"

text \<open>
  \<open>PSO\<close> from its first line to the comment \<open>Enter main PSO loop\<close>: the names
  that stay fixed, the state before the first iteration, and the number of
  iterations \<open>range(maxit)\<close> will make.  The generator is seeded from the clock; the
  seed decides the sequence \<open>u\<close> of draws, which is a parameter.
\<close>

definition PSO_setup ::
  "'a problem \<Rightarrow> params \<Rightarrow> 'a \<Rightarrow> (nat \<Rightarrow> real) \<Rightarrow> error + ('a ctx \<times> swarm \<times> nat)" where
  "PSO_setup problem params0 args0 u =
     (let d = default_PSO_params params0 in
      ebind (lookup d ''maxit'') (\<lambda>maxit.
      ebind (lookup d ''n_part'') (\<lambda>n_part.
      ebind (lookup d ''w'') (\<lambda>w0.
      ebind (lookup d ''wdamp'') (\<lambda>wdamp0.
      ebind (lookup d ''c1'') (\<lambda>c10.
      ebind (lookup d ''c2'') (\<lambda>c20.
      ebind (lookup d ''con'') (\<lambda>con0.
      ebind (lookup d ''display_info'') (\<lambda>display_info.
      ebind (lookup d ''velocity_limit_scale'') (\<lambda>scale.
      ebind (broadcast2 (-) (problem_varmax problem) (problem_varmin problem)) (\<lambda>span.
      let maxv = map (\<lambda>x. as_real scale * x) span;
          L = \<lparr>cost_function = problem_cost_function problem, args = args0,
               varmin = problem_varmin problem, varmax = problem_varmax problem,
               params = d, con = as_real con0, c1 = as_real c10, c2 = as_real c20,
               wdamp = as_real wdamp0, min_velocity = map uminus maxv, max_velocity = maxv,
               draws = u\<rparr>
      in
      ebind (py_range n_part) (\<lambda>n.
      ebind (efold (init_particle L) [0..<n] (start_state n (as_real w0))) (\<lambda>s1.
      ebind (np_zeros_succ maxit) (\<lambda>zeros.
      ebind (setitem zeros 0 (gbest_value s1)) (\<lambda>bc.
      ebind (py_range maxit) (\<lambda>m.
      Inr (L, s1\<lparr>best_costs := bc\<rparr>, m)))))))))))))))))"

text \<open>\<open>PSO\<close> up to its \<open>return\<close>, keeping the whole final state.\<close>

definition PSO_run :: "'a problem \<Rightarrow> params \<Rightarrow> 'a \<Rightarrow> (nat \<Rightarrow> real) \<Rightarrow> error + swarm" where
  "PSO_run problem params0 args0 u =
     ebind (PSO_setup problem params0 args0 u) (\<lambda>(L, s0, m). main_loop L [0..<m] s0)"

text \<open>\<open>PSO\<close> returns the triple \<open>gbest_value, gbest_position, best_costs\<close>.\<close>

definition PSO ::
  "'a problem \<Rightarrow> params \<Rightarrow> 'a \<Rightarrow> (nat \<Rightarrow> real) \<Rightarrow> error + (xreal \<times> real list \<times> xreal list)" where
  "PSO problem params0 args0 u =
     ebind (PSO_run problem params0 args0 u)
       (\<lambda>s. Inr (gbest_value s, gbest_position s, best_costs s))"

section \<open>Notions for the statements and their proofs\<close>

text \<open>The least \<open>pbest_value\<close> in a list of particles, \<open>inf\<close> for the empty list.\<close>

fun best_of :: "particle list \<Rightarrow> xreal" where
  "best_of [] = PInf"
| "best_of (p # ps) = min (pbest_value p) (best_of ps)"

text \<open>
  What the inner loop of an iteration leaves alone, and what it may only lower.
\<close>

definition steady :: "swarm \<Rightarrow> swarm \<Rightarrow> bool" where
  "steady s t \<longleftrightarrow>
     best_costs t = best_costs s \<and> w t = w s \<and> iterations t = iterations s \<and>
     particle_debug t = particle_debug s \<and>
     length (particles_vector t) = length (particles_vector s) \<and>
     gbest_value t \<le> gbest_value s \<and>
     (gbest_value t = gbest_value s \<longrightarrow> gbest_position t = gbest_position s)"

text \<open>
  The shape of \<open>best_costs\<close> after \<open>iterations s\<close> passes of a run of \<open>m\<close>
  iterations: full length, the entries written so far never increasing and ending in
  the current best, and zeros in the entries not written yet.
\<close>

definition trace_ok :: "nat \<Rightarrow> swarm \<Rightarrow> bool" where
  "trace_ok m s \<longleftrightarrow>
     iterations s \<le> m \<and> length (best_costs s) = m + 1 \<and>
     best_costs s ! iterations s = gbest_value s \<and>
     (\<forall>j<iterations s. best_costs s ! (j + 1) \<le> best_costs s ! j) \<and>
     (\<forall>j. iterations s < j \<and> j \<le> m \<longrightarrow> best_costs s ! j = Fin 0)"

text \<open>
  Inputs on which no line of the main loop raises: bounds and velocity limits of one
  length \<open>D\<close>, and an integer, non-negative early-stopping window.
\<close>

definition wf_ctx :: "'a ctx \<Rightarrow> nat \<Rightarrow> bool" where
  "wf_ctx L D \<longleftrightarrow>
     length (varmin L) = D \<and> length (varmax L) = D \<and>
     length (min_velocity L) = D \<and> length (max_velocity L) = D \<and>
     params L ''BPSO'' \<noteq> None \<and> params L ''early_stopping'' \<noteq> None \<and>
     (\<exists>r. params L ''early_stopping_rounds'' = Some (PyInt r) \<and> 0 \<le> r)"

text \<open>Every array of every particle, and the best position, has length \<open>D\<close>.\<close>

definition lens :: "nat \<Rightarrow> swarm \<Rightarrow> bool" where
  "lens D s \<longleftrightarrow>
     (\<forall>p\<in>set (particles_vector s).
        length (position p) = D \<and> length (velocity p) = D \<and> length (pbest_position p) = D) \<and>
     (particles_vector s \<noteq> [] \<longrightarrow> length (gbest_position s) = D)"

text \<open>
  The draws that become the position of particle \<open>j\<close> in binary mode, where each
  particle consumes \<open>2 * D\<close> draws (position, then velocity).
\<close>

definition block :: "(nat \<Rightarrow> real) \<Rightarrow> nat \<Rightarrow> nat \<Rightarrow> real list" where
  "block u D j = map (\<lambda>i. u (2 * D * j + i)) [0..<D]"


section \<open>Sample inputs\<close>

text \<open>
  The problem and the parameters of \<open>demos.py\<close> (the centre of a circle), and a
  sequence of draws in \<open>[0,1)\<close>.
\<close>

definition demo_problem :: "unit problem" where
  "demo_problem =
     \<lparr>problem_cost_function = (\<lambda>positions a. \<bar>25 - ((3 - positions ! 0)\<^sup>2 + (4 - positions ! 1)\<^sup>2)\<bar>),
      problem_varmin = [- 1000, - 1000], problem_varmax = [1000, 1000]\<rparr>"

definition demo_params :: params where
  "demo_params =
     [''maxit'' \<mapsto> PyInt 15, ''n_part'' \<mapsto> PyInt 30, ''c1'' \<mapsto> PyInt 2, ''c2'' \<mapsto> PyInt 2,
      ''w'' \<mapsto> PyFloat (9 / 10), ''wdamp'' \<mapsto> PyFloat (2 / 10), ''con'' \<mapsto> PyInt 1,
      ''display_info'' \<mapsto> PyInt 1, ''early_stopping'' \<mapsto> PyInt 1,
      ''early_stopping_rounds'' \<mapsto> PyInt 7]"

definition demo_draws :: "nat \<Rightarrow> real" where
  "demo_draws k = real (k mod 10) / 10"

text \<open>A particle in two dimensions, for trying the update rules.\<close>

definition demo_particle :: particle where
  "demo_particle = \<lparr>position = [1, 2], velocity = [3, - 4], pbest_position = [0, 2],
                     pbest_value = Fin 5\<rparr>"

text \<open>
  More sample inputs: binary runs that stop after initialisation, of one particle and
  of the default swarm, and a binary run of one particle and one iteration; a
  continuous run of one particle that stops after initialisation; bounds of lengths
  2 and 3, of lengths 3 and 1, and of lengths 1 and 3.
\<close>

definition binary_params :: params where
  "binary_params = [''BPSO'' \<mapsto> PyInt 1, ''con'' \<mapsto> PyInt 1, ''maxit'' \<mapsto> PyInt 0,
                    ''n_part'' \<mapsto> PyInt 1]"

definition binary_swarm_params :: params where
  "binary_swarm_params = [''BPSO'' \<mapsto> PyInt 1, ''con'' \<mapsto> PyInt 1, ''maxit'' \<mapsto> PyInt 0]"

definition binary_step_params :: params where
  "binary_step_params = [''BPSO'' \<mapsto> PyInt 1, ''con'' \<mapsto> PyInt 1, ''maxit'' \<mapsto> PyInt 1,
                         ''n_part'' \<mapsto> PyInt 1]"

definition ragged_problem :: "unit problem" where
  "ragged_problem = \<lparr>problem_cost_function = (\<lambda>positions a. sum_list positions),
                      problem_varmin = [0, 0], problem_varmax = [1, 1, 1]\<rparr>"

definition broadcast_problem :: "unit problem" where
  "broadcast_problem = \<lparr>problem_cost_function = (\<lambda>positions a. sum_list positions),
                         problem_varmin = [0, 0, 0], problem_varmax = [1]\<rparr>"

definition short_varmin_problem :: "unit problem" where
  "short_varmin_problem = \<lparr>problem_cost_function = (\<lambda>positions a. sum_list positions),
                            problem_varmin = [0], problem_varmax = [1, 1, 1]\<rparr>"

definition single_params :: params where
  "single_params = [''con'' \<mapsto> PyInt 1, ''maxit'' \<mapsto> PyInt 0, ''n_part'' \<mapsto> PyInt 1]"



section \<open>The inner loop by reference\<close>

text \<open>
  The part of the state of \<open>PSO\<close> that the inner loop touches, with references: the
  store, the particles, and the global best with the address of its position.
\<close>

record ref_swarm =
  store :: heap
  particles_at :: "ref_particle list"
  gbest_value_at :: xreal
  gbest_position_at :: addr
  rng_at :: nat

text \<open>
  Lines 196 to 202 of \<open>PSO.py\<close>.  The two assignments
  \<open>particle.pbest_position = particle.position\<close> and
  \<open>gbest_position = particle.pbest_position\<close> copy a reference, not an array.
\<close>

definition ref_compare_cost :: "'a ctx \<Rightarrow> nat \<Rightarrow> ref_particle \<Rightarrow> ref_swarm \<Rightarrow> ref_swarm" where
  "ref_compare_cost L i p2 s =
     (let cost_at_new_position = Fin (cost_function L (store s ! position_at p2) (args L)) in
      if cost_at_new_position < pbest_value_at p2 then
        (let p3 = p2\<lparr>pbest_value_at := cost_at_new_position, pbest_position_at := position_at p2\<rparr>;
             s1 = s\<lparr>particles_at := (particles_at s)[i := p3]\<rparr>
         in if cost_at_new_position < gbest_value_at s1
            then s1\<lparr>gbest_value_at := cost_at_new_position,
                    gbest_position_at := pbest_position_at p3\<rparr>
            else s1)
      else s\<lparr>particles_at := (particles_at s)[i := p2]\<rparr>)"

definition ref_particle_step :: "'a ctx \<Rightarrow> real \<Rightarrow> nat \<Rightarrow> ref_swarm \<Rightarrow> error + ref_swarm" where
  "ref_particle_step L inertia i s =
     ebind (ref_update_velocity (store s) (particles_at s ! i) (con L) inertia (c1 L) (c2 L)
              (gbest_position_at s) (min_velocity L) (max_velocity L) (draws L) (rng_at s))
       (\<lambda>(p1, h1, k1).
     ebind (lookup (params L) ''BPSO'') (\<lambda>BPSO.
     ebind (ref_update_position h1 p1 (varmin L) (varmax L) BPSO (draws L) k1) (\<lambda>(p2, h2, k2).
     Inr (ref_compare_cost L i p2 (s\<lparr>store := h2, rng_at := k2\<rparr>)))))"

text \<open>
  Any later updates of particles: a list of steps, each with the inertia weight of its
  iteration and the index of its particle.
\<close>

definition ref_steps :: "'a ctx \<Rightarrow> (real \<times> nat) list \<Rightarrow> ref_swarm \<Rightarrow> error + ref_swarm" where
  "ref_steps L steps s = efold (\<lambda>(inertia, j). ref_particle_step L inertia j) steps s"

text \<open>
  Every reference points into the store; and the state without references that a
  state with references denotes, the remaining fields taken from \<open>t\<close>.
\<close>

definition allocated :: "ref_swarm \<Rightarrow> bool" where
  "allocated r \<longleftrightarrow>
     gbest_position_at r < length (store r) \<and>
     (\<forall>q\<in>set (particles_at r).
        position_at q < length (store r) \<and> velocity_at q < length (store r) \<and>
        pbest_position_at q < length (store r))"

definition lift :: "ref_swarm \<Rightarrow> swarm \<Rightarrow> swarm" where
  "lift r t = t\<lparr>particles_vector := map (deref (store r)) (particles_at r),
                 gbest_value := gbest_value_at r,
                 gbest_position := store r ! gbest_position_at r,
                 rng := rng_at r\<rparr>"

text \<open>
  A swarm of one particle in one dimension whose next step improves the global best,
  and the states after one and after two steps.
\<close>

definition sample_ctx :: "unit ctx" where
  "sample_ctx = \<lparr>cost_function = (\<lambda>positions a. sum_list positions), args = (),
                  varmin = [0], varmax = [10], params = [''BPSO'' \<mapsto> PyInt 0],
                  con = 1, c1 = 2, c2 = 2, wdamp = 1,
                  min_velocity = [- 2], max_velocity = [2], draws = demo_draws\<rparr>"

definition sample_refs :: ref_swarm where
  "sample_refs = \<lparr>store = [[5], [- 1], [5], [5]],
                   particles_at = [\<lparr>position_at = 0, velocity_at = 1, pbest_position_at = 2,
                                    pbest_value_at = Fin 5\<rparr>],
                   gbest_value_at = Fin 5, gbest_position_at = 3, rng_at = 0\<rparr>"

definition sample_refs_after :: ref_swarm where
  "sample_refs_after =
     \<lparr>store = [[5], [- 1], [5], [5], [- 1], [4]],
      particles_at = [\<lparr>position_at = 5, velocity_at = 4, pbest_position_at = 5,
                       pbest_value_at = Fin 4\<rparr>],
      gbest_value_at = Fin 4, gbest_position_at = 5, rng_at = 2\<rparr>"

definition sample_refs_later :: ref_swarm where
  "sample_refs_later =
     \<lparr>store = [[5], [- 1], [5], [5], [- 1], [4], [- 1], [3]],
      particles_at = [\<lparr>position_at = 7, velocity_at = 6, pbest_position_at = 7,
                       pbest_value_at = Fin 3\<rparr>],
      gbest_value_at = Fin 3, gbest_position_at = 7, rng_at = 4\<rparr>"

section \<open>Exceptions and loops\<close>

lemma ebind_Inr_iff: "ebind m f = Inr y \<longleftrightarrow> (\<exists>x. m = Inr x \<and> f x = Inr y)"
  by (cases m) simp_all

lemma efold_inv:
  assumes "efold f xs s = Inr s'" and "I s"
    and "\<And>x t t'. x \<in> set xs \<Longrightarrow> I t \<Longrightarrow> f x t = Inr t' \<Longrightarrow> I t'"
  shows "I s'"
  using assms
proof (induction xs arbitrary: s)
  case Nil
  then show ?case by simp
next
  case (Cons x xs)
  from Cons.prems(1) obtain t where t: "f x s = Inr t" "efold f xs t = Inr s'"
    by (auto simp add: ebind_Inr_iff)
  have "I t" using Cons.prems(3) [of x s t] Cons.prems(2) t(1) by simp
  show ?case
    by (rule Cons.IH [OF t(2) \<open>I t\<close>]) (use Cons.prems(3) in auto)
qed

lemma update_velocity_frame:
  assumes "update_velocity p cn wv a1 a2 gb mn mx u k = Inr (p', k')"
  shows "position p' = position p" "pbest_position p' = pbest_position p"
    "pbest_value p' = pbest_value p" "k' = k + 2"
  using assms
  by (auto simp add: update_velocity_def Let_def ebind_Inr_iff)

lemma update_position_frame:
  assumes "update_position p vmin vmax B u k = Inr (p', k')"
  shows "velocity p' = velocity p" "pbest_position p' = pbest_position p"
    "pbest_value p' = pbest_value p"
  using assms
  by (auto simp add: update_position_def Let_def ebind_Inr_iff split: if_splits)

lemma particle_step_Inr:
  assumes "particle_step L i s = Inr s'"
  obtains p1 k1 B p2 k2 where
    "update_velocity (particles_vector s ! i) (con L) (w s) (c1 L) (c2 L)
              (gbest_position s) (min_velocity L) (max_velocity L) (draws L) (rng s) = Inr (p1, k1)"
    "lookup (params L) ''BPSO'' = Inr B"
    "update_position p1 (varmin L) (varmax L) B (draws L) k1 = Inr (p2, k2)"
    "s' = compare_cost L i p2 (s\<lparr>rng := k2\<rparr>)"
  using assms unfolding particle_step_def
  by (auto simp add: ebind_Inr_iff)

lemma compare_cost_result:
  assumes "s' = compare_cost L i p2 s"
  shows "\<exists>p c. particles_vector s' = (particles_vector s)[i := p]
      \<and> c = Fin (cost_function L (position p) (args L))
      \<and> position p = position p2 \<and> velocity p = velocity p2
      \<and> pbest_value p = min (pbest_value p2) c
      \<and> gbest_value s' = (if c < pbest_value p2 then min (gbest_value s) c else gbest_value s)
      \<and> gbest_position s' = (if c < pbest_value p2 \<and> c < gbest_value s then position p else gbest_position s)
      \<and> pbest_position p = (if c < pbest_value p2 then position p else pbest_position p2)
      \<and> best_costs s' = best_costs s \<and> w s' = w s \<and> iterations s' = iterations s
      \<and> particle_debug s' = particle_debug s \<and> rng s' = rng s"
proof (cases "Fin (cost_function L (position p2) (args L)) < pbest_value p2")
  case True
  then show ?thesis
    unfolding assms compare_cost_def Let_def
    by (intro exI [of _ "p2\<lparr>pbest_value := Fin (cost_function L (position p2) (args L)), pbest_position := position p2\<rparr>"])
       (auto simp add: min_def)
next
  case False
  then show ?thesis
    unfolding assms compare_cost_def Let_def
    by (intro exI [of _ p2]) (auto simp add: min_def)
qed

lemma efold_append: "efold f (xs @ ys) s = ebind (efold f xs s) (efold f ys)"
proof (induction xs arbitrary: s)
  case Nil
  then show ?case by simp
next
  case (Cons x xs)
  then show ?case by (cases "f x s") simp_all
qed

lemma efold_upt_inv:
  assumes "efold f [i..<n] s = Inr s'" and "I i s" and "i \<le> n"
    and "\<And>j t t'. i \<le> j \<Longrightarrow> j < n \<Longrightarrow> I j t \<Longrightarrow> f j t = Inr t' \<Longrightarrow> I (Suc j) t'"
  shows "I n s'"
  using assms(3,1)
proof (induction n arbitrary: s' rule: dec_induct)
  case base
  then show ?case using assms(2) by simp
next
  case (step n)
  from step.prems obtain t where t: "efold f [i..<n] s = Inr t" "f n t = Inr s'"
    using step.hyps(1) by (auto simp add: efold_append ebind_Inr_iff)
  have "I n t"
    by (rule step.IH [OF t(1)])
  then show ?case
    using assms(4) [of n t s'] step.hyps t(2) by simp
qed

lemma efold_total:
  assumes "I s" and "\<And>x t. x \<in> set xs \<Longrightarrow> I t \<Longrightarrow> \<exists>t'. f x t = Inr t' \<and> I t'"
  shows "\<exists>s'. efold f xs s = Inr s' \<and> I s'"
  using assms
proof (induction xs arbitrary: s)
  case Nil
  then show ?case by simp
next
  case (Cons x xs)
  obtain t where t: "f x s = Inr t" "I t"
    using Cons.prems(2) [of x s] Cons.prems(1) by auto
  have "\<exists>s'. efold f xs t = Inr s' \<and> I s'"
    by (rule Cons.IH [OF t(2)]) (use Cons.prems(2) in auto)
  then show ?case
    using t(1) by simp
qed

lemma PInf_top [simp]: "a \<le> PInf"
  by simp

lemma min_PInf [simp]: "min a PInf = a" "min PInf a = a"
  by (simp_all add: min_def) (cases a; simp)+

lemma best_of_Min: "best_of ps = Min (insert PInf (pbest_value ` set ps))"
proof (induction ps)
  case Nil
  then show ?case by simp
next
  case (Cons p ps)
  have "Min (insert PInf (pbest_value ` set (p # ps))) =
        Min (insert (pbest_value p) (insert PInf (pbest_value ` set ps)))"
    by (simp add: insert_commute)
  also have "\<dots> = min (pbest_value p) (Min (insert PInf (pbest_value ` set ps)))"
    by (rule Min_insert) simp_all
  finally show ?case
    using Cons.IH by simp
qed

lemma best_of_update:
  "i < length ps \<Longrightarrow> pbest_value p \<le> pbest_value (ps ! i) \<Longrightarrow>
   best_of (ps[i := p]) = min (pbest_value p) (best_of ps)"
proof (induction ps arbitrary: i)
  case Nil
  then show ?case by simp
next
  case (Cons q qs)
  show ?case
  proof (cases i)
    case 0
    then show ?thesis using Cons.prems by (auto simp add: min_def)
  next
    case (Suc j)
    then show ?thesis using Cons.prems Cons.IH [of j]
      by (simp add: min.left_commute)
  qed
qed

section \<open>Array operations on equal shapes\<close>

lemma broadcast2_same: "length xs = length ys \<Longrightarrow> broadcast2 f xs ys = Inr (map2 f xs ys)"
  by (simp add: broadcast2_def)

lemma np_max2_same: "length a = length b \<Longrightarrow> np_max2 a b = Inr (map2 max a b)"
  by (simp add: np_max2_def)

lemma np_min2_same: "length a = length b \<Longrightarrow> np_min2 a b = Inr (map2 min a b)"
  by (simp add: np_min2_def)

section \<open>One particle, one pass over the swarm\<close>

lemma steady_refl: "steady s s"
  by (simp add: steady_def)

lemma steady_trans: "steady s t \<Longrightarrow> steady t r \<Longrightarrow> steady s r"
  by (auto simp add: steady_def)

lemma particle_step_result:
  assumes "particle_step L i s = Inr s'"
  shows "\<exists>p c. particles_vector s' = (particles_vector s)[i := p]
      \<and> c = Fin (cost_function L (position p) (args L))
      \<and> pbest_value p = min (pbest_value (particles_vector s ! i)) c
      \<and> gbest_value s' = (if c < pbest_value (particles_vector s ! i) then min (gbest_value s) c else gbest_value s)
      \<and> gbest_position s' = (if c < pbest_value (particles_vector s ! i) \<and> c < gbest_value s then position p else gbest_position s)
      \<and> pbest_position p = (if c < pbest_value (particles_vector s ! i) then position p else pbest_position (particles_vector s ! i))
      \<and> best_costs s' = best_costs s \<and> w s' = w s \<and> iterations s' = iterations s
      \<and> particle_debug s' = particle_debug s"
proof -
  from assms obtain p1 k1 B p2 k2 where
    uv: "update_velocity (particles_vector s ! i) (con L) (w s) (c1 L) (c2 L)
              (gbest_position s) (min_velocity L) (max_velocity L) (draws L) (rng s) = Inr (p1, k1)"
    and up: "update_position p1 (varmin L) (varmax L) B (draws L) k1 = Inr (p2, k2)"
    and s': "s' = compare_cost L i p2 (s\<lparr>rng := k2\<rparr>)"
    by (rule particle_step_Inr)
  have pv: "pbest_value p2 = pbest_value (particles_vector s ! i)"
    and pp: "pbest_position p2 = pbest_position (particles_vector s ! i)"
    using update_velocity_frame [OF uv] update_position_frame [OF up] by simp_all
  show ?thesis
    using compare_cost_result [OF s'] unfolding pv pp by auto
qed

lemma particle_step_steady:
  assumes "particle_step L i s = Inr s'"
  shows "steady s s'"
  using particle_step_result [OF assms]
  by (auto simp add: steady_def min_def split: if_splits)

lemma particles_steady:
  assumes "efold (particle_step L) xs s = Inr s'"
  shows "steady s s'"
  by (rule efold_inv [OF assms, where I = "steady s"])
     (auto intro: steady_refl steady_trans particle_step_steady)

lemma particle_step_tracked:
  assumes "particle_step L i s = Inr s'" and "i < length (particles_vector s)"
    and "gbest_value s = best_of (particles_vector s)"
  shows "gbest_value s' = best_of (particles_vector s')"
proof -
  from particle_step_result [OF assms(1)] obtain p c where
    pv: "particles_vector s' = (particles_vector s)[i := p]"
    and pb: "pbest_value p = min (pbest_value (particles_vector s ! i)) c"
    and gb: "gbest_value s' = (if c < pbest_value (particles_vector s ! i) then min (gbest_value s) c else gbest_value s)"
    by blast
  have le: "pbest_value p \<le> pbest_value (particles_vector s ! i)"
    using pb by simp
  have in_list: "best_of (particles_vector s) \<le> pbest_value (particles_vector s ! i)"
    using assms(2) by (simp add: best_of_Min)
  show ?thesis
    unfolding pv best_of_update [OF assms(2) le] gb pb
    using assms(3) in_list by (auto simp add: min_def)
qed

lemma particles_tracked:
  assumes "efold (particle_step L) [0..<length (particles_vector s)] s = Inr s'"
    and "gbest_value s = best_of (particles_vector s)"
  shows "gbest_value s' = best_of (particles_vector s')"
proof -
  let ?I = "\<lambda>t. length (particles_vector t) = length (particles_vector s) \<and>
                 gbest_value t = best_of (particles_vector t)"
  have "?I s'"
  proof (rule efold_inv [OF assms(1), where I = ?I])
    show "?I s" using assms(2) by simp
  next
    fix x t t'
    assume x: "x \<in> set [0..<length (particles_vector s)]" and t: "?I t"
      and step: "particle_step L x t = Inr t'"
    have "length (particles_vector t') = length (particles_vector t)"
      using particle_step_steady [OF step] by (simp add: steady_def)
    moreover have "gbest_value t' = best_of (particles_vector t')"
      using particle_step_tracked [OF step] x t by simp
    ultimately show "?I t'" using t by simp
  qed
  then show ?thesis by simp
qed

lemma tracked_Min:
  assumes "gbest_value x = best_of (particles_vector x)"
  shows "gbest_value x = Min (insert PInf (pbest_value ` set (particles_vector x))) \<and>
         (\<forall>q\<in>set (particles_vector x). gbest_value x \<le> pbest_value q)"
  using assms by (simp add: best_of_Min)

lemma particles_tracked_some:
  assumes "efold (particle_step L) xs s = Inr s'"
    and "\<forall>x\<in>set xs. x < length (particles_vector s)"
    and "gbest_value s = best_of (particles_vector s)"
  shows "gbest_value s' = best_of (particles_vector s')"
proof -
  let ?I = "\<lambda>t. length (particles_vector t) = length (particles_vector s) \<and>
                 gbest_value t = best_of (particles_vector t)"
  have "?I s'"
  proof (rule efold_inv [OF assms(1), where I = ?I])
    show "?I s" using assms(3) by simp
  next
    fix x t t'
    assume x: "x \<in> set xs" and t: "?I t" and step: "particle_step L x t = Inr t'"
    have "length (particles_vector t') = length (particles_vector t)"
      using particle_step_steady [OF step] by (simp add: steady_def)
    moreover have "gbest_value t' = best_of (particles_vector t')"
      using particle_step_tracked [OF step] x t assms(2) by simp
    ultimately show "?I t'" using t by simp
  qed
  then show ?thesis by simp
qed

section \<open>One iteration and the main loop\<close>

lemma iteration_Inr:
  assumes "iteration L it s = Inr (s3, stop)"
  obtains dbg s2 bc where
    "examine_particles (particles_vector s) (gbest_position s) = Inr dbg"
    "efold (particle_step L) [0..<length (particles_vector s)]
       (s\<lparr>particle_debug := particle_debug s @ [dbg]\<rparr>) = Inr s2"
    "setitem (best_costs s2) (int it + 1) (gbest_value s2) = Inr bc"
    "s3 = s2\<lparr>best_costs := bc, w := w s2 * wdamp L, iterations := it + 1\<rparr>"
    "early_stop L it bc = Inr stop"
  using assms unfolding iteration_def Let_def
  by (auto simp add: ebind_Inr_iff)

lemma setitem_nonneg:
  assumes "setitem xs i v = Inr ys" and "0 \<le> i"
  shows "nat i < length xs \<and> ys = xs[nat i := v]"
  using assms
  by (auto simp add: setitem_def norm_index_def ebind_Inr_iff split: if_splits)

lemma setitem_in_range:
  "0 \<le> i \<Longrightarrow> nat i < length xs \<Longrightarrow> setitem xs i v = Inr (xs[nat i := v])"
  by (auto simp add: setitem_def norm_index_def)

lemma main_loop_rule:
  assumes run: "main_loop L [i..<m] s = Inr s'" and J: "J s" and it: "iterations s = i"
    and le: "i \<le> m"
    and cont: "\<And>it t t'. i \<le> it \<Longrightarrow> it < m \<Longrightarrow> iterations t = it \<Longrightarrow> J t \<Longrightarrow>
                 iteration L it t = Inr (t', False) \<Longrightarrow> J t' \<and> iterations t' = Suc it"
    and stop: "\<And>it t t'. i \<le> it \<Longrightarrow> it < m \<Longrightarrow> iterations t = it \<Longrightarrow> J t \<Longrightarrow>
                 iteration L it t = Inr (t', True) \<Longrightarrow> Q t'"
  shows "(J s' \<and> iterations s' = m) \<or> Q s'"
proof -
  have "\<And>k t. i \<le> k \<Longrightarrow> k \<le> m \<Longrightarrow> main_loop L [k..<m] t = Inr s' \<Longrightarrow> J t \<Longrightarrow>
          iterations t = k \<Longrightarrow> (J s' \<and> iterations s' = m) \<or> Q s'"
  proof -
    fix k t
    show "i \<le> k \<Longrightarrow> k \<le> m \<Longrightarrow> main_loop L [k..<m] t = Inr s' \<Longrightarrow> J t \<Longrightarrow>
          iterations t = k \<Longrightarrow> (J s' \<and> iterations s' = m) \<or> Q s'"
    proof (induction "m - k" arbitrary: k t)
      case 0
      then have "[k..<m] = []" by simp
      with 0 show ?case by simp
    next
      case (Suc d)
      then have lt: "k < m" by linarith
      then have upt: "[k..<m] = k # [Suc k..<m]"
        by (simp add: upt_conv_Cons)
      from Suc.prems(3) obtain t1 b where t1: "iteration L k t = Inr (t1, b)"
        and rest: "(if b then Inr t1 else main_loop L [Suc k..<m] t1) = Inr s'"
        unfolding upt by (auto simp add: ebind_Inr_iff)
      show ?case
      proof (cases b)
        case True
        then have eq: "s' = t1" using rest by simp
        have "iteration L k t = Inr (t1, True)" using t1 True by simp
        then have "Q t1"
          by (rule stop [OF Suc.prems(1) lt Suc.prems(5) Suc.prems(4)])
        then show ?thesis using eq by simp
      next
        case False
        then have run': "main_loop L [Suc k..<m] t1 = Inr s'" using rest by simp
        have "iteration L k t = Inr (t1, False)" using t1 False by simp
        then have Jt: "J t1 \<and> iterations t1 = Suc k"
          by (rule cont [OF Suc.prems(1) lt Suc.prems(5) Suc.prems(4)])
        have d: "d = m - Suc k" using Suc.hyps(2) by linarith
        have a: "i \<le> Suc k" using Suc.prems(1) by linarith
        have b: "Suc k \<le> m" using lt by linarith
        show ?thesis
          by (rule Suc.hyps(1) [OF d a b run' conjunct1 [OF Jt] conjunct2 [OF Jt]])
      qed
    qed
  qed
  from this [OF order_refl le run J it] show ?thesis .
qed

lemma iteration_trace:
  assumes step: "iteration L it s = Inr (s3, stop)" and "it < m" and "iterations s = it"
    and "trace_ok m s"
  shows "trace_ok m s3 \<and> iterations s3 = Suc it"
proof -
  from step obtain dbg s2 bc where
    run: "efold (particle_step L) [0..<length (particles_vector s)]
       (s\<lparr>particle_debug := particle_debug s @ [dbg]\<rparr>) = Inr s2"
    and set: "setitem (best_costs s2) (int it + 1) (gbest_value s2) = Inr bc"
    and s3: "s3 = s2\<lparr>best_costs := bc, w := w s2 * wdamp L, iterations := it + 1\<rparr>"
    by (rule iteration_Inr)
  have st: "steady (s\<lparr>particle_debug := particle_debug s @ [dbg]\<rparr>) s2"
    by (rule particles_steady [OF run])
  then have bc2: "best_costs s2 = best_costs s" and g2: "gbest_value s2 \<le> gbest_value s"
    by (simp_all add: steady_def)
  have bc: "bc = (best_costs s)[Suc it := gbest_value s2]"
    using setitem_nonneg [OF set] bc2 by (simp add: nat_add_distrib)
  have len: "Suc it < length (best_costs s)" and old: "best_costs s ! it = gbest_value s"
    and mono: "\<forall>j<it. best_costs s ! (j + 1) \<le> best_costs s ! j"
    and zero: "\<forall>j. it < j \<and> j \<le> m \<longrightarrow> best_costs s ! j = Fin 0"
    using assms(2-4) by (simp_all add: trace_ok_def)
  have new: "bc ! Suc it = gbest_value s2"
    unfolding bc using len by simp
  have keep: "\<And>j. j \<noteq> Suc it \<Longrightarrow> bc ! j = best_costs s ! j"
    unfolding bc by simp
  have "\<forall>j<Suc it. bc ! (j + 1) \<le> bc ! j"
  proof (intro allI impI)
    fix j assume "j < Suc it"
    then consider "j = it" | "j < it" by linarith
    then show "bc ! (j + 1) \<le> bc ! j"
    proof cases
      case 1
      then show ?thesis using new keep [of it] old g2 by simp
    next
      case 2
      then show ?thesis using keep [of j] keep [of "j + 1"] mono by simp
    qed
  qed
  moreover have "\<forall>j. Suc it < j \<and> j \<le> m \<longrightarrow> bc ! j = Fin 0"
    using keep zero by simp
  moreover have "length bc = m + 1"
    unfolding bc using assms(4) by (simp add: trace_ok_def)
  ultimately show ?thesis
    using new assms(2) unfolding trace_ok_def s3 by simp
qed

section \<open>The initialisation loop\<close>

lemma np_random_uniform_length:
  "np_random_uniform low high n u k = Inr (xs, k') \<Longrightarrow> length xs = n \<and> k' = k + n"
  by (auto simp add: np_random_uniform_def split: if_splits)

lemma initial_position_result:
  assumes "initial_position p vmin vmax B u k = Inr (p', k')"
  shows "length (position p') = length vmin" "length (velocity p') = length vmin"
    "pbest_position p' = position p'" "pbest_value p' = pbest_value p"
    "k' = k + 2 * length vmin"
  using assms
  by (auto simp add: initial_position_def ebind_Inr_iff split: if_splits
      dest!: np_random_uniform_length)

lemma init_particle_Inr:
  assumes "init_particle L i s = Inr s'"
  obtains B p1 k1 where
    "lookup (params L) ''BPSO'' = Inr B"
    "initial_position (particles_vector s ! i) (varmin L) (varmax L) B (draws L) (rng s) = Inr (p1, k1)"
    "s' = seed_bests L i p1 (s\<lparr>rng := k1\<rparr>)"
  using assms unfolding init_particle_def
  by (auto simp add: ebind_Inr_iff)

lemma seed_bests_result:
  assumes "s' = seed_bests L i p1 s"
  shows "\<exists>p c. particles_vector s' = (particles_vector s)[i := p]
      \<and> c = Fin (cost_function L (position p1) (args L))
      \<and> position p = position p1 \<and> velocity p = velocity p1 \<and> pbest_position p = position p1
      \<and> pbest_value p = c
      \<and> gbest_value s' = min (gbest_value s) c
      \<and> gbest_position s' = (if c < gbest_value s then position p1 else gbest_position s)
      \<and> best_costs s' = best_costs s \<and> w s' = w s \<and> iterations s' = iterations s
      \<and> particle_debug s' = particle_debug s \<and> rng s' = rng s"
  unfolding assms seed_bests_def Let_def
  by (intro exI [of _ "p1\<lparr>pbest_position := position p1,
        pbest_value := Fin (cost_function L (position p1) (args L))\<rparr>"])
     (auto simp add: min_def)

lemma init_particle_result:
  assumes "init_particle L i s = Inr s'"
  shows "\<exists>p c. particles_vector s' = (particles_vector s)[i := p]
      \<and> c = Fin (cost_function L (position p) (args L))
      \<and> length (position p) = length (varmin L) \<and> length (velocity p) = length (varmin L)
      \<and> pbest_position p = position p
      \<and> pbest_value p = c
      \<and> gbest_value s' = min (gbest_value s) c
      \<and> gbest_position s' = (if c < gbest_value s then position p else gbest_position s)
      \<and> best_costs s' = best_costs s \<and> w s' = w s \<and> iterations s' = iterations s
      \<and> particle_debug s' = particle_debug s
      \<and> rng s' = rng s + 2 * length (varmin L)"
proof -
  from assms obtain B p1 k1 where
    ip: "initial_position (particles_vector s ! i) (varmin L) (varmax L) B (draws L) (rng s) = Inr (p1, k1)"
    and s': "s' = seed_bests L i p1 (s\<lparr>rng := k1\<rparr>)"
    by (rule init_particle_Inr)
  show ?thesis
    using seed_bests_result [OF s'] initial_position_result [OF ip] by auto
qed

lemma init_loop_tracked:
  assumes run: "efold (init_particle L) [0..<n] s = Inr s'"
    and "particles_vector s = replicate n Particle" and "gbest_value s = PInf"
  shows "gbest_value s' = best_of (particles_vector s') \<and> length (particles_vector s') = n
     \<and> best_costs s' = best_costs s \<and> w s' = w s \<and> iterations s' = iterations s
     \<and> particle_debug s' = particle_debug s"
proof -
  let ?I = "\<lambda>j t. length (particles_vector t) = n \<and>
      (\<forall>k. j \<le> k \<and> k < n \<longrightarrow> pbest_value (particles_vector t ! k) = PInf) \<and>
      gbest_value t = best_of (particles_vector t) \<and>
      best_costs t = best_costs s \<and> w t = w s \<and> iterations t = iterations s \<and>
      particle_debug t = particle_debug s"
  have best_rep: "best_of (replicate n Particle) = PInf"
    by (induction n) (simp_all add: Particle_def)
  have "?I n s'"
  proof (rule efold_upt_inv [OF run, where I = ?I])
    show "?I 0 s"
      using assms(2,3) best_rep by (simp add: Particle_def)
    show "0 \<le> n" by simp
  next
    fix j t t'
    assume j: "0 \<le> j" "j < n" and I: "?I j t" and step: "init_particle L j t = Inr t'"
    from init_particle_result [OF step] obtain p c where
      pv: "particles_vector t' = (particles_vector t)[j := p]"
      and pb: "pbest_value p = c"
      and gb: "gbest_value t' = min (gbest_value t) c"
      and fr: "best_costs t' = best_costs t" "w t' = w t" "iterations t' = iterations t"
        "particle_debug t' = particle_debug t"
      by blast
    have jl: "j < length (particles_vector t)" using I j by simp
    have le: "pbest_value p \<le> pbest_value (particles_vector t ! j)"
      using I j by simp
    have "gbest_value t' = best_of (particles_vector t')"
      unfolding pv best_of_update [OF jl le] gb pb using I by (simp add: min.commute)
    moreover have "\<forall>k. Suc j \<le> k \<and> k < n \<longrightarrow> pbest_value (particles_vector t' ! k) = PInf"
      unfolding pv using I by simp
    ultimately show "?I (Suc j) t'"
      using I fr pv by simp
  qed
  then show ?thesis by simp
qed

section \<open>Runs that raise nothing\<close>

lemma update_velocity_run:
  assumes "length (velocity self) = n" "length (position self) = n"
    "length (pbest_position self) = n" "length gb = n" "length mn = n" "length mx = n"
  shows "update_velocity self cn wv a1 a2 gb mn mx u k =
     Inr (self\<lparr>velocity := map2 min (map2 max (map (\<lambda>t. cn * t)
      (map2 (+) (map2 (+) (map (\<lambda>v. wv * v) (velocity self))
                 (map (\<lambda>d. a1 * u k * d) (map2 (-) (pbest_position self) (position self))))
            (map (\<lambda>d. a2 * u (k + 1) * d) (map2 (-) gb (position self))))) mn) mx\<rparr>, k + 2)"
  using assms
  by (simp add: update_velocity_def Let_def broadcast2_same np_max2_same np_min2_same)

lemma update_velocity_total:
  assumes "length (velocity self) = n" "length (position self) = n"
    "length (pbest_position self) = n" "length gb = n" "length mn = n" "length mx = n"
  shows "\<exists>p. update_velocity self cn wv a1 a2 gb mn mx u k = Inr (p, k + 2) \<and>
     length (velocity p) = n \<and> position p = position self \<and>
     pbest_position p = pbest_position self \<and> pbest_value p = pbest_value self"
  unfolding update_velocity_run [OF assms] using assms by simp

lemma update_position_total:
  assumes "length (position self) = n" "length (velocity self) = n"
    "length vmin = n" "length vmax = n"
  shows "\<exists>p k'. update_position self vmin vmax B u k = Inr (p, k') \<and>
     length (position p) = n \<and> velocity p = velocity self \<and>
     pbest_position p = pbest_position self \<and> pbest_value p = pbest_value self"
  using assms
  by (simp add: update_position_def Let_def broadcast2_same np_max2_same np_min2_same)

lemma lens_nth:
  "lens D s \<Longrightarrow> i < length (particles_vector s) \<Longrightarrow>
   length (position (particles_vector s ! i)) = D \<and>
   length (velocity (particles_vector s ! i)) = D \<and>
   length (pbest_position (particles_vector s ! i)) = D \<and> length (gbest_position s) = D"
  by (auto simp add: lens_def)

lemma lens_update:
  assumes "lens D s" and "i < length (particles_vector s)"
    and "particles_vector s' = (particles_vector s)[i := p]"
    and "length (position p) = D" "length (velocity p) = D" "length (pbest_position p) = D"
    and "length (gbest_position s') = D"
  shows "lens D s'"
  using assms unfolding lens_def
  by (auto dest!: set_update_subset_insert [THEN subsetD])

lemma particle_step_total:
  assumes wf: "wf_ctx L D" and l: "lens D s" and i: "i < length (particles_vector s)"
  shows "\<exists>s'. particle_step L i s = Inr s' \<and> lens D s' \<and>
     length (particles_vector s') = length (particles_vector s)"
proof -
  let ?p = "particles_vector s ! i"
  note ln = lens_nth [OF l i]
  from wf obtain B where B: "lookup (params L) ''BPSO'' = Inr B"
    by (auto simp add: wf_ctx_def lookup_def)
  from wf have D: "length (varmin L) = D" "length (varmax L) = D"
    "length (min_velocity L) = D" "length (max_velocity L) = D"
    by (simp_all add: wf_ctx_def)
  obtain p1 where uv: "update_velocity ?p (con L) (w s) (c1 L) (c2 L)
              (gbest_position s) (min_velocity L) (max_velocity L) (draws L) (rng s) = Inr (p1, rng s + 2)"
    and p1: "length (velocity p1) = D" "position p1 = position ?p"
      "pbest_position p1 = pbest_position ?p"
    using update_velocity_total [of ?p D "gbest_position s" "min_velocity L" "max_velocity L"]
      ln D by blast
  obtain p2 k2 where up: "update_position p1 (varmin L) (varmax L) B (draws L) (rng s + 2) = Inr (p2, k2)"
    and p2: "length (position p2) = D" "velocity p2 = velocity p1"
      "pbest_position p2 = pbest_position p1"
    using update_position_total [of p1 D "varmin L" "varmax L"] p1 ln D by metis
  define s' where "s' = compare_cost L i p2 (s\<lparr>rng := k2\<rparr>)"
  have run: "particle_step L i s = Inr s'"
    unfolding particle_step_def s'_def using uv B up by simp
  from compare_cost_result [OF s'_def] obtain p c where
    pv: "particles_vector s' = (particles_vector s)[i := p]"
    and pp: "position p = position p2" "velocity p = velocity p2"
    and gp: "gbest_position s' = (if c < pbest_value p2 \<and> c < gbest_value (s\<lparr>rng := k2\<rparr>) then position p else gbest_position (s\<lparr>rng := k2\<rparr>))"
    and pb: "pbest_position p = (if c < pbest_value p2 then position p else pbest_position p2)"
    by auto
  have "lens D s'"
    by (rule lens_update [OF l i pv]) (use pp p2 p1 ln gp pb in auto)
  then show ?thesis
    using run pv by auto
qed

lemma examine_total:
  assumes "\<forall>p\<in>set ps. length (position p) = length gb"
  shows "\<exists>dbg. examine_particles ps gb = Inr dbg"
proof -
  have "\<exists>r. efold (examine_one gb) ps acc = Inr r \<and> True" for acc
  proof (rule efold_total [where I = "\<lambda>_. True"])
    show True ..
  next
    fix x t
    assume "x \<in> set ps"
    then have "length (position x) = length gb" using assms by simp
    then show "\<exists>t'. examine_one gb x t = Inr t' \<and> True"
      by (cases t) (simp add: examine_one_def broadcast2_same)
  qed
  then show ?thesis
    by (simp add: examine_particles_def)
qed

lemma particles_total:
  assumes wf: "wf_ctx L D" and l: "lens D s"
  shows "\<exists>s'. efold (particle_step L) [0..<length (particles_vector s)] s = Inr s' \<and> lens D s' \<and>
     length (particles_vector s') = length (particles_vector s)"
proof -
  let ?n = "length (particles_vector s)"
  let ?I = "\<lambda>t. lens D t \<and> length (particles_vector t) = ?n"
  have "\<exists>s'. efold (particle_step L) [0..<?n] s = Inr s' \<and> ?I s'"
  proof (rule efold_total [where I = ?I])
    show "?I s" using l by simp
  next
    fix x t
    assume "x \<in> set [0..<?n]" and "?I t"
    then show "\<exists>t'. particle_step L x t = Inr t' \<and> ?I t'"
      using particle_step_total [OF wf, of t x] by auto
  qed
  then show ?thesis by simp
qed

lemma getitem_in_range: "0 \<le> i \<Longrightarrow> nat i < length xs \<Longrightarrow> getitem xs i = Inr (xs ! nat i)"
  by (auto simp add: getitem_def norm_index_def)

lemma early_stop_value:
  assumes es: "params L ''early_stopping'' = Some e"
    and r: "params L ''early_stopping_rounds'' = Some (PyInt r)" "0 \<le> r"
    and len: "it + 1 < length bc"
  shows "early_stop L it bc =
     Inr (truthy e \<and> r < int it \<and> np_abs_diff_lt (bc ! (it + 1)) (bc ! (it + 1 - nat r)))"
proof -
  have a: "getitem bc (int it + 1) = Inr (bc ! (it + 1))"
    using getitem_in_range [of "int it + 1" bc] len by (simp add: nat_add_distrib)
  have b: "getitem bc (int it + 1 - r) = Inr (bc ! (it + 1 - nat r))" if "r < int it"
  proof -
    have "nat (int it + 1 - r) = it + 1 - nat r"
      using r(2) that by linarith
    moreover have "nat (int it + 1 - r) < length bc"
      using r(2) that len by linarith
    ultimately show ?thesis
      using getitem_in_range [of "int it + 1 - r" bc] that by simp
  qed
  show ?thesis
    unfolding early_stop_def
    using a b by (auto simp add: lookup_def es r(1))
qed

lemma iteration_total:
  assumes wf: "wf_ctx L D" and l: "lens D s" and tr: "trace_ok m s" and it: "iterations s = it" "it < m"
  shows "\<exists>s3 b. iteration L it s = Inr (s3, b) \<and> lens D s3"
proof -
  have "\<forall>p\<in>set (particles_vector s). length (position p) = length (gbest_position s)"
    using l by (auto simp add: lens_def)
  then obtain dbg where dbg: "examine_particles (particles_vector s) (gbest_position s) = Inr dbg"
    using examine_total by blast
  let ?s1 = "s\<lparr>particle_debug := particle_debug s @ [dbg]\<rparr>"
  have l1: "lens D ?s1" using l by (simp add: lens_def)
  obtain s2 where s2: "efold (particle_step L) [0..<length (particles_vector ?s1)] ?s1 = Inr s2"
    and l2: "lens D s2"
    using particles_total [OF wf l1] by blast
  have "steady ?s1 s2"
    using particles_steady s2 by blast
  then have bc2: "best_costs s2 = best_costs s" by (simp add: steady_def)
  have len: "length (best_costs s) = m + 1" using tr by (simp add: trace_ok_def)
  let ?bc = "(best_costs s2)[nat (int it + 1) := gbest_value s2]"
  have set: "setitem (best_costs s2) (int it + 1) (gbest_value s2) = Inr ?bc"
    by (rule setitem_in_range) (use bc2 len it in simp_all)
  from wf obtain e r where e: "params L ''early_stopping'' = Some e"
    and r: "params L ''early_stopping_rounds'' = Some (PyInt r)" "0 \<le> r"
    by (auto simp add: wf_ctx_def)
  have "it + 1 < length ?bc" using bc2 len it by simp
  from early_stop_value [OF e r this] obtain b where b: "early_stop L it ?bc = Inr b"
    by blast
  let ?s3 = "s2\<lparr>best_costs := ?bc, w := w s2 * wdamp L, iterations := it + 1\<rparr>"
  have "iteration L it s = Inr (?s3, b)"
    unfolding iteration_def Let_def using dbg s2 set b by simp
  moreover have "lens D ?s3" using l2 by (simp add: lens_def)
  ultimately show ?thesis by blast
qed

lemma main_loop_total:
  assumes wf: "wf_ctx L D"
  shows "lens D s \<Longrightarrow> trace_ok m s \<Longrightarrow> iterations s = i \<Longrightarrow> \<exists>s'. main_loop L [i..<m] s = Inr s'"
proof (induction "m - i" arbitrary: i s)
  case 0
  then show ?case by simp
next
  case (Suc d)
  then have lt: "i < m" by linarith
  then have upt: "[i..<m] = i # [Suc i..<m]"
    by (simp add: upt_conv_Cons)
  obtain s3 b where s3: "iteration L i s = Inr (s3, b)" and l3: "lens D s3"
    using iteration_total [OF wf Suc.prems(1,2,3) lt] by blast
  have t3: "trace_ok m s3 \<and> iterations s3 = Suc i"
    by (rule iteration_trace [OF s3 lt Suc.prems(3,2)])
  have d: "d = m - Suc i" using Suc.hyps(2) by linarith
  obtain s' where "main_loop L [Suc i..<m] s3 = Inr s'"
    using Suc.hyps(1) [OF d l3 conjunct1 [OF t3] conjunct2 [OF t3]] by blast
  then show ?case
    unfolding upt using s3 by (cases b) simp_all
qed

lemma np_random_uniform_same:
  "length low = n \<Longrightarrow> length high = n \<Longrightarrow>
   np_random_uniform low high n u k =
     Inr (map (\<lambda>j. pick low j + (pick high j - pick low j) * u (k + j)) [0..<n], k + n)"
  by (simp add: np_random_uniform_def)

lemma np_random_uniform_unit:
  "np_random_uniform [0] [1] n u k = Inr (map (\<lambda>j. u (k + j)) [0..<n], k + n)"
  by (simp add: np_random_uniform_def pick_def)

lemma initial_position_total:
  assumes "length vmax = length vmin \<or> length vmax = 1"
  shows "\<exists>p'. initial_position p vmin vmax B u k = Inr (p', k + 2 * length vmin)"
  using assms
  by (auto simp add: initial_position_def np_random_uniform_def)

lemma init_particle_total:
  assumes "length (varmax L) = length (varmin L) \<or> length (varmax L) = 1"
    and "params L ''BPSO'' \<noteq> None"
  shows "\<exists>s'. init_particle L i s = Inr s'"
proof -
  from assms(2) obtain B where B: "lookup (params L) ''BPSO'' = Inr B"
    by (auto simp add: lookup_def)
  obtain p' where "initial_position (particles_vector s ! i) (varmin L) (varmax L) B (draws L) (rng s)
      = Inr (p', rng s + 2 * length (varmin L))"
    using initial_position_total [OF assms(1)] by blast
  then show ?thesis
    unfolding init_particle_def using B by simp
qed

lemma init_loop_total:
  assumes "length (varmax L) = length (varmin L) \<or> length (varmax L) = 1"
    and "params L ''BPSO'' \<noteq> None"
  shows "\<exists>s'. efold (init_particle L) xs s = Inr s'"
proof -
  have "\<exists>s'. efold (init_particle L) xs s = Inr s' \<and> True"
    by (rule efold_total [where I = "\<lambda>_. True"]) (use init_particle_total [OF assms] in auto)
  then show ?thesis by simp
qed

lemma init_loop_lens:
  assumes run: "efold (init_particle L) [0..<n] s = Inr s'"
    and "length (particles_vector s) = n" and "gbest_value s = PInf"
  shows "lens (length (varmin L)) s'"
proof -
  let ?D = "length (varmin L)"
  let ?I = "\<lambda>j t. length (particles_vector t) = n \<and>
      (\<forall>k<j. length (position (particles_vector t ! k)) = ?D \<and>
              length (velocity (particles_vector t ! k)) = ?D \<and>
              length (pbest_position (particles_vector t ! k)) = ?D) \<and>
      (if j = 0 then gbest_value t = PInf else length (gbest_position t) = ?D)"
  have "?I n s'"
  proof (rule efold_upt_inv [OF run, where I = ?I])
    show "?I 0 s" using assms(2,3) by simp
    show "0 \<le> n" by simp
  next
    fix j t t'
    assume j: "0 \<le> j" "j < n" and I: "?I j t" and step: "init_particle L j t = Inr t'"
    from init_particle_result [OF step] obtain p c where
      pv: "particles_vector t' = (particles_vector t)[j := p]"
      and c: "c = Fin (cost_function L (position p) (args L))"
      and lp: "length (position p) = ?D" "length (velocity p) = ?D" "pbest_position p = position p"
      and gp: "gbest_position t' = (if c < gbest_value t then position p else gbest_position t)"
      by blast
    have jl: "j < length (particles_vector t)" using I j by simp
    have "length (gbest_position t') = ?D"
    proof (cases "j = 0")
      case True
      then have "c < gbest_value t" using I c by (simp add: less_xreal_def)
      then show ?thesis using gp lp by simp
    next
      case False
      then show ?thesis using I gp lp by simp
    qed
    moreover have "\<forall>k<Suc j. length (position (particles_vector t' ! k)) = ?D \<and>
              length (velocity (particles_vector t' ! k)) = ?D \<and>
              length (pbest_position (particles_vector t' ! k)) = ?D"
      unfolding pv using I lp jl by (auto simp add: nth_list_update less_Suc_eq)
    ultimately show "?I (Suc j) t'"
      using I pv by simp
  qed
  then show ?thesis
    unfolding lens_def by (cases "n = 0") (auto simp add: in_set_conv_nth)
qed

section \<open>Facts about the defaulting\<close>

lemma set_default_apply:
  "set_default d key v k =
     (if k = key then (case d key of None \<Rightarrow> Some v | Some x \<Rightarrow> Some x) else d k)"
  by (simp add: set_default_def split: option.splits)

lemma set_default_keeps: "d k \<noteq> None \<Longrightarrow> set_default d key v k \<noteq> None"
  by (simp add: set_default_def)

lemma set_default_sets: "set_default d key v key \<noteq> None"
  by (simp add: set_default_def)

lemma default_con_keeps: "d k \<noteq> None \<Longrightarrow> default_con d k \<noteq> None"
  by (simp add: default_con_def split: option.splits)

lemma default_con_other: "k \<noteq> ''con'' \<Longrightarrow> default_con d k = d k"
  by (simp add: default_con_def split: option.splits)

lemma default_velocity_limit_scale_keeps:
  "d k \<noteq> None \<Longrightarrow> default_velocity_limit_scale d k \<noteq> None"
  by (auto simp add: default_velocity_limit_scale_def split: option.splits)

lemma default_velocity_limit_scale_other:
  "k \<noteq> ''velocity_limit_scale'' \<Longrightarrow> default_velocity_limit_scale d k = d k"
  by (simp add: default_velocity_limit_scale_def split: option.splits)

lemmas defaulting_keeps =
  set_default_keeps default_con_keeps default_velocity_limit_scale_keeps set_default_sets

text \<open>Ten of the twelve keys are present after defaulting, whatever the caller passed.\<close>

lemma default_present:
  "default_PSO_params p ''maxit'' \<noteq> None"
  "default_PSO_params p ''n_part'' \<noteq> None"
  "default_PSO_params p ''w'' \<noteq> None"
  "default_PSO_params p ''wdamp'' \<noteq> None"
  "default_PSO_params p ''c1'' \<noteq> None"
  "default_PSO_params p ''c2'' \<noteq> None"
  "default_PSO_params p ''display_info'' \<noteq> None"
  "default_PSO_params p ''early_stopping'' \<noteq> None"
  "default_PSO_params p ''early_stopping_rounds'' \<noteq> None"
  "default_PSO_params p ''BPSO'' \<noteq> None"
  unfolding default_PSO_params_def Let_def
  by (intro defaulting_keeps)+

text \<open>A key the caller supplied is never removed.\<close>

lemma default_keeps: "p k \<noteq> None \<Longrightarrow> default_PSO_params p k \<noteq> None"
  unfolding default_PSO_params_def Let_def
  by (intro defaulting_keeps)

text \<open>The value of \<open>con\<close> after defaulting: there is no branch that stores 1.\<close>

lemma default_con_value:
  "default_PSO_params p ''con'' =
     (case p ''con'' of
        Some v \<Rightarrow> Some v
      | None \<Rightarrow>
          if (case p ''wdamp'' of None \<Rightarrow> False | Some v \<Rightarrow> \<not> py_eq v 1) \<and>
             (case p ''w'' of None \<Rightarrow> False | Some v \<Rightarrow> \<not> py_eq v 1)
          then Some (PyFloat (7298437881283576 / 10000000000000000))
          else None)"
proof -
  define d where
    "d = set_default (set_default (set_default (set_default (set_default (set_default p
           ''maxit'' (PyInt 30)) ''n_part'' (PyInt 15)) ''w'' (PyInt 1)) ''wdamp'' (PyInt 1))
           ''c1'' (PyFloat (205 / 100))) ''c2'' (PyFloat (205 / 100))"
  have a: "default_PSO_params p ''con'' = default_con d ''con''"
    unfolding default_PSO_params_def Let_def d_def
    by (simp add: set_default_apply default_velocity_limit_scale_other)
  have c: "d ''con'' = p ''con''"
    unfolding d_def by (simp add: set_default_apply)
  have w: "d ''w'' = (case p ''w'' of None \<Rightarrow> Some (PyInt 1) | Some v \<Rightarrow> Some v)"
    unfolding d_def by (simp add: set_default_apply)
  have wd: "d ''wdamp'' = (case p ''wdamp'' of None \<Rightarrow> Some (PyInt 1) | Some v \<Rightarrow> Some v)"
    unfolding d_def by (simp add: set_default_apply)
  show ?thesis
    unfolding a default_con_def w wd
    by (auto simp add: c py_eq_def split: option.splits)
qed

lemma BPSO_after_defaulting:
  "default_PSO_params p ''BPSO'' = (case p ''BPSO'' of None \<Rightarrow> Some (PyInt 0) | Some b \<Rightarrow> Some b)"
  unfolding default_PSO_params_def Let_def
  by (simp add: set_default_apply default_velocity_limit_scale_other default_con_other)

text \<open>The value of \<open>velocity_limit_scale\<close> after defaulting.\<close>

lemma default_velocity_limit_scale_value:
  "default_PSO_params p ''velocity_limit_scale'' =
     (case p ''BPSO'' of
        None \<Rightarrow> (case p ''velocity_limit_scale'' of None \<Rightarrow> Some (PyFloat (2 / 10)) | Some v \<Rightarrow> Some v)
      | Some b \<Rightarrow>
          if p ''velocity_limit_scale'' = None \<and> py_eq b 0 then Some (PyFloat (2 / 10))
          else if py_eq b 1 then Some (PyInt 1)
          else p ''velocity_limit_scale'')"
proof -
  define d where
    "d = set_default (set_default (set_default (set_default (default_con (set_default
          (set_default (set_default (set_default (set_default (set_default p
           ''maxit'' (PyInt 30)) ''n_part'' (PyInt 15)) ''w'' (PyInt 1)) ''wdamp'' (PyInt 1))
           ''c1'' (PyFloat (205 / 100))) ''c2'' (PyFloat (205 / 100))))
           ''display_info'' (PyInt 1)) ''early_stopping'' (PyInt 0))
           ''early_stopping_rounds'' (PyInt 10)) ''BPSO'' (PyInt 0)"
  have a: "default_PSO_params p = default_velocity_limit_scale d"
    unfolding default_PSO_params_def Let_def d_def ..
  have v: "d ''velocity_limit_scale'' = p ''velocity_limit_scale''"
    unfolding d_def by (simp add: set_default_apply default_con_other)
  have b: "d ''BPSO'' = (case p ''BPSO'' of None \<Rightarrow> Some (PyInt 0) | Some b \<Rightarrow> Some b)"
    unfolding d_def by (simp add: set_default_apply default_con_other)
  show ?thesis
    unfolding a default_velocity_limit_scale_def b
    by (auto simp add: v py_eq_def split: option.splits)
qed

lemma lookup_Some: "d k = Some v \<Longrightarrow> lookup d k = Inr v"
  by (simp add: lookup_def)

lemma lookup_None: "d k = None \<Longrightarrow> lookup d k = Inl KeyError"
  by (simp add: lookup_def)

lemma PSO_run_no_con:
  assumes "default_PSO_params p ''con'' = None"
  shows "PSO_run problem p a u = Inl KeyError"
proof -
  obtain v1 v2 v3 v4 v5 v6 where
    "default_PSO_params p ''maxit'' = Some v1" "default_PSO_params p ''n_part'' = Some v2"
    "default_PSO_params p ''w'' = Some v3" "default_PSO_params p ''wdamp'' = Some v4"
    "default_PSO_params p ''c1'' = Some v5" "default_PSO_params p ''c2'' = Some v6"
    using default_present [of p] by blast
  then show ?thesis
    using assms unfolding PSO_run_def PSO_setup_def Let_def
    by (simp add: lookup_Some lookup_None)
qed

section \<open>The state before the first iteration\<close>

lemma lookup_Inr_iff: "lookup d k = Inr v \<longleftrightarrow> d k = Some v"
  by (simp add: lookup_def split: option.splits)

lemma py_range_Inr_iff: "py_range v = Inr n \<longleftrightarrow> (\<exists>i. v = PyInt i \<and> n = nat i)"
  by (cases v) auto

lemma np_zeros_succ_Inr_iff:
  "np_zeros_succ v = Inr zs \<longleftrightarrow> (\<exists>i. v = PyInt i \<and> 0 \<le> i + 1 \<and> zs = replicate (nat (i + 1)) (Fin 0))"
  by (cases v) auto

lemma PSO_setup_Inr:
  assumes "PSO_setup P p a u = Inr (L, s0, m)"
  obtains mi n w0 wd0 c10 c20 con0 scale span s1 where
    "default_PSO_params p ''maxit'' = Some (PyInt mi)" "0 \<le> mi" "m = nat mi"
    "default_PSO_params p ''n_part'' = Some (PyInt n)"
    "default_PSO_params p ''w'' = Some w0"
    "default_PSO_params p ''wdamp'' = Some wd0"
    "default_PSO_params p ''c1'' = Some c10"
    "default_PSO_params p ''c2'' = Some c20"
    "default_PSO_params p ''con'' = Some con0"
    "default_PSO_params p ''velocity_limit_scale'' = Some scale"
    "broadcast2 (-) (problem_varmax P) (problem_varmin P) = Inr span"
    "L = \<lparr>cost_function = problem_cost_function P, args = a,
               varmin = problem_varmin P, varmax = problem_varmax P,
               params = default_PSO_params p, con = as_real con0, c1 = as_real c10, c2 = as_real c20,
               wdamp = as_real wd0, min_velocity = map uminus (map (\<lambda>x. as_real scale * x) span),
               max_velocity = map (\<lambda>x. as_real scale * x) span, draws = u\<rparr>"
    "efold (init_particle L) [0..<nat n] (start_state (nat n) (as_real w0)) = Inr s1"
    "s0 = s1\<lparr>best_costs := (replicate (nat mi + 1) (Fin 0))[0 := gbest_value s1]\<rparr>"
proof -
  from assms obtain maxit n_part w0 wd0 c10 c20 con0 di scale span n s1 zeros bc m' where
    k: "default_PSO_params p ''maxit'' = Some maxit"
    "default_PSO_params p ''n_part'' = Some n_part"
    "default_PSO_params p ''w'' = Some w0"
    "default_PSO_params p ''wdamp'' = Some wd0"
    "default_PSO_params p ''c1'' = Some c10"
    "default_PSO_params p ''c2'' = Some c20"
    "default_PSO_params p ''con'' = Some con0"
    "default_PSO_params p ''velocity_limit_scale'' = Some scale"
    and sp: "broadcast2 (-) (problem_varmax P) (problem_varmin P) = Inr span"
    and n: "py_range n_part = Inr n"
    and run: "efold (init_particle \<lparr>cost_function = problem_cost_function P, args = a,
               varmin = problem_varmin P, varmax = problem_varmax P,
               params = default_PSO_params p, con = as_real con0, c1 = as_real c10, c2 = as_real c20,
               wdamp = as_real wd0, min_velocity = map uminus (map (\<lambda>x. as_real scale * x) span),
               max_velocity = map (\<lambda>x. as_real scale * x) span, draws = u\<rparr>) [0..<n] (start_state n (as_real w0)) = Inr s1"
    and z: "np_zeros_succ maxit = Inr zeros"
    and bc: "setitem zeros 0 (gbest_value s1) = Inr bc"
    and m: "py_range maxit = Inr m'"
    and res: "(L, s0, m) = (\<lparr>cost_function = problem_cost_function P, args = a,
               varmin = problem_varmin P, varmax = problem_varmax P,
               params = default_PSO_params p, con = as_real con0, c1 = as_real c10, c2 = as_real c20,
               wdamp = as_real wd0, min_velocity = map uminus (map (\<lambda>x. as_real scale * x) span),
               max_velocity = map (\<lambda>x. as_real scale * x) span, draws = u\<rparr>, s1\<lparr>best_costs := bc\<rparr>, m')"
    unfolding PSO_setup_def Let_def start_state_def
    by (auto simp add: ebind_Inr_iff lookup_Inr_iff)
  from n obtain ni where ni: "n_part = PyInt ni" "n = nat ni"
    by (auto simp add: py_range_Inr_iff)
  from z obtain mi where mi: "maxit = PyInt mi" "0 \<le> mi + 1" "zeros = replicate (nat (mi + 1)) (Fin 0)"
    by (auto simp add: np_zeros_succ_Inr_iff)
  from bc have nz: "0 < length zeros" and bcv: "bc = zeros[0 := gbest_value s1]"
    using setitem_nonneg [of zeros 0 "gbest_value s1" bc] by simp_all
  from nz mi have mi0: "0 \<le> mi" by simp
  from m mi have m': "m' = nat mi" by simp
  have zs: "zeros = replicate (nat mi + 1) (Fin 0)"
    using mi(3) mi0 by (simp add: nat_add_distrib)
  show ?thesis
    by (rule that [of mi ni w0 wd0 c10 c20 con0 scale span s1])
       (use k sp run res ni mi mi0 m' zs bcv in simp_all)
qed

lemma default_supplied:
  assumes "p k = Some v" and "k \<noteq> ''velocity_limit_scale''"
  shows "default_PSO_params p k = Some v"
proof -
  have sd: "set_default d key x k = Some v" if "d k = Some v" for d key x
    using that by (auto simp add: set_default_def)
  have dc: "default_con d k = Some v" if "d k = Some v" for d
    using that by (auto simp add: default_con_def split: option.splits)
  show ?thesis
    unfolding default_PSO_params_def Let_def
    by (simp add: default_velocity_limit_scale_other [OF assms(2)])
       (intro sd dc assms(1))
qed

lemma PSO_setup_facts:
  assumes "PSO_setup P p a u = Inr (L, s0, m)"
  shows "trace_ok m s0" "iterations s0 = 0" "gbest_value s0 = best_of (particles_vector s0)"
    "params L = default_PSO_params p" "varmin L = problem_varmin P" "varmax L = problem_varmax P"
    "cost_function L = problem_cost_function P" "args L = a" "draws L = u"
    "default_PSO_params p ''maxit'' = Some (PyInt (int m))"
    "lens (length (problem_varmin P)) s0"
proof -
  from assms obtain mi n w0 wd0 c10 c20 con0 scale span s1 where
    mi: "default_PSO_params p ''maxit'' = Some (PyInt mi)" "0 \<le> mi" "m = nat mi"
    and L: "L = \<lparr>cost_function = problem_cost_function P, args = a,
               varmin = problem_varmin P, varmax = problem_varmax P,
               params = default_PSO_params p, con = as_real con0, c1 = as_real c10, c2 = as_real c20,
               wdamp = as_real wd0, min_velocity = map uminus (map (\<lambda>x. as_real scale * x) span),
               max_velocity = map (\<lambda>x. as_real scale * x) span, draws = u\<rparr>"
    and run: "efold (init_particle L) [0..<nat n] (start_state (nat n) (as_real w0)) = Inr s1"
    and s0: "s0 = s1\<lparr>best_costs := (replicate (nat mi + 1) (Fin 0))[0 := gbest_value s1]\<rparr>"
    by (rule PSO_setup_Inr)
  have tr: "gbest_value s1 = best_of (particles_vector s1) \<and> length (particles_vector s1) = nat n
     \<and> best_costs s1 = best_costs (start_state (nat n) (as_real w0))
     \<and> w s1 = w (start_state (nat n) (as_real w0))
     \<and> iterations s1 = iterations (start_state (nat n) (as_real w0))
     \<and> particle_debug s1 = particle_debug (start_state (nat n) (as_real w0))"
    by (rule init_loop_tracked [OF run]) (simp_all add: start_state_def)
  show "iterations s0 = 0" using tr s0 by (simp add: start_state_def)
  show "gbest_value s0 = best_of (particles_vector s0)" using tr s0 by simp
  show "trace_ok m s0"
    using tr s0 mi by (auto simp add: trace_ok_def start_state_def nth_list_update)
  show "params L = default_PSO_params p" "varmin L = problem_varmin P"
    "varmax L = problem_varmax P" "cost_function L = problem_cost_function P" "args L = a"
    "draws L = u"
    by (simp_all add: L)
  show "default_PSO_params p ''maxit'' = Some (PyInt (int m))"
    using mi by simp
  have "lens (length (varmin L)) s1"
    by (rule init_loop_lens [OF run]) (simp_all add: start_state_def)
  then show "lens (length (problem_varmin P)) s0"
    using s0 by (simp add: L lens_def)
qed

lemma PSO_setup_wf:
  assumes "PSO_setup P p a u = Inr (L, s0, m)"
    and "length (problem_varmin P) = length (problem_varmax P)"
    and "default_PSO_params p ''early_stopping_rounds'' = Some (PyInt r)" "0 \<le> r"
  shows "wf_ctx L (length (problem_varmin P))"
proof -
  from assms(1) obtain con0 c10 c20 wd0 scale span where
    sp: "broadcast2 (-) (problem_varmax P) (problem_varmin P) = Inr span"
    and L: "L = \<lparr>cost_function = problem_cost_function P, args = a,
               varmin = problem_varmin P, varmax = problem_varmax P,
               params = default_PSO_params p, con = as_real con0, c1 = as_real c10, c2 = as_real c20,
               wdamp = as_real wd0, min_velocity = map uminus (map (\<lambda>x. as_real scale * x) span),
               max_velocity = map (\<lambda>x. as_real scale * x) span, draws = u\<rparr>"
    by (rule PSO_setup_Inr)
  have "length span = length (problem_varmin P)"
    using sp assms(2) by (auto simp add: broadcast2_def)
  then show ?thesis
    unfolding wf_ctx_def L using assms(2-4) default_present [of p] by simp
qed

lemma PSO_setup_total:
  assumes "default_PSO_params p ''maxit'' = Some (PyInt mi)" "0 \<le> mi"
    and "default_PSO_params p ''n_part'' = Some (PyInt n)"
    and "default_PSO_params p ''con'' \<noteq> None"
    and "default_PSO_params p ''velocity_limit_scale'' \<noteq> None"
    and "length (problem_varmax P) = length (problem_varmin P) \<or> length (problem_varmax P) = 1"
  shows "\<exists>L s0. PSO_setup P p a u = Inr (L, s0, nat mi)"
proof -
  obtain w0 wd0 c10 c20 di con0 scale where k:
    "default_PSO_params p ''w'' = Some w0" "default_PSO_params p ''wdamp'' = Some wd0"
    "default_PSO_params p ''c1'' = Some c10" "default_PSO_params p ''c2'' = Some c20"
    "default_PSO_params p ''display_info'' = Some di"
    "default_PSO_params p ''con'' = Some con0"
    "default_PSO_params p ''velocity_limit_scale'' = Some scale"
    using default_present [of p] assms(4,5) by blast
  have "\<exists>span. broadcast2 (-) (problem_varmax P) (problem_varmin P) = Inr span"
    using assms(6) by (auto simp add: broadcast2_def)
  then obtain span where sp: "broadcast2 (-) (problem_varmax P) (problem_varmin P) = Inr span"
    by blast
  define L where "L = \<lparr>cost_function = problem_cost_function P, args = a,
               varmin = problem_varmin P, varmax = problem_varmax P,
               params = default_PSO_params p, con = as_real con0, c1 = as_real c10, c2 = as_real c20,
               wdamp = as_real wd0, min_velocity = map uminus (map (\<lambda>x. as_real scale * x) span),
               max_velocity = map (\<lambda>x. as_real scale * x) span, draws = u\<rparr>"
  have "length (varmax L) = length (varmin L) \<or> length (varmax L) = 1"
    "params L ''BPSO'' \<noteq> None"
    using assms(6) default_present [of p] by (simp_all add: L_def)
  then obtain s1 where s1: "efold (init_particle L) [0..<nat n]
      (start_state (nat n) (as_real w0)) = Inr s1"
    using init_loop_total by blast
  have z: "setitem (replicate (nat (mi + 1)) (Fin 0)) 0 (gbest_value s1) =
      Inr ((replicate (nat (mi + 1)) (Fin 0))[0 := gbest_value s1])"
    using setitem_in_range [of 0 "replicate (nat (mi + 1)) (Fin 0)"] assms(2) by simp
  show ?thesis
    unfolding PSO_setup_def Let_def
    using k assms(1-3) sp s1 z unfolding L_def
    by (simp add: lookup_def)
qed

section \<open>Whole runs\<close>

lemma default_value:
  "default_PSO_params p ''maxit'' = (case p ''maxit'' of None \<Rightarrow> Some (PyInt 30) | Some v \<Rightarrow> Some v)"
  "default_PSO_params p ''n_part'' = (case p ''n_part'' of None \<Rightarrow> Some (PyInt 15) | Some v \<Rightarrow> Some v)"
  "default_PSO_params p ''w'' = (case p ''w'' of None \<Rightarrow> Some (PyInt 1) | Some v \<Rightarrow> Some v)"
  "default_PSO_params p ''wdamp'' = (case p ''wdamp'' of None \<Rightarrow> Some (PyInt 1) | Some v \<Rightarrow> Some v)"
  "default_PSO_params p ''c1'' = (case p ''c1'' of None \<Rightarrow> Some (PyFloat (205 / 100)) | Some v \<Rightarrow> Some v)"
  "default_PSO_params p ''c2'' = (case p ''c2'' of None \<Rightarrow> Some (PyFloat (205 / 100)) | Some v \<Rightarrow> Some v)"
  "default_PSO_params p ''display_info'' = (case p ''display_info'' of None \<Rightarrow> Some (PyInt 1) | Some v \<Rightarrow> Some v)"
  "default_PSO_params p ''early_stopping'' = (case p ''early_stopping'' of None \<Rightarrow> Some (PyInt 0) | Some v \<Rightarrow> Some v)"
  "default_PSO_params p ''early_stopping_rounds'' = (case p ''early_stopping_rounds'' of None \<Rightarrow> Some (PyInt 10) | Some v \<Rightarrow> Some v)"
  unfolding default_PSO_params_def Let_def
  by (simp_all add: set_default_apply default_velocity_limit_scale_other default_con_other
      split: option.splits)

lemma PSO_run_Inr:
  assumes "PSO_run P p a u = Inr s"
  obtains L s0 m where "PSO_setup P p a u = Inr (L, s0, m)" "main_loop L [0..<m] s0 = Inr s"
  using assms unfolding PSO_run_def by (auto simp add: ebind_Inr_iff)

lemma main_loop_inv:
  assumes "main_loop L its s = Inr s'" and "I s"
    and "\<And>it t t' b. I t \<Longrightarrow> iteration L it t = Inr (t', b) \<Longrightarrow> I t'"
  shows "I s'"
  using assms(1,2)
proof (induction its arbitrary: s)
  case Nil
  then show ?case by simp
next
  case (Cons it its)
  from Cons.prems(1) obtain t b where t: "iteration L it s = Inr (t, b)"
    and rest: "(if b then Inr t else main_loop L its t) = Inr s'"
    by (auto simp add: ebind_Inr_iff)
  have It: "I t" by (rule assms(3) [OF Cons.prems(2) t])
  show ?case
  proof (cases b)
    case True
    then show ?thesis using rest It by simp
  next
    case False
    then have "main_loop L its t = Inr s'" using rest by simp
    then show ?thesis by (rule Cons.IH [OF _ It])
  qed
qed

lemma main_loop_trace:
  assumes "main_loop L [0..<m] s = Inr s'" and "trace_ok m s" and "iterations s = 0"
  shows "trace_ok m s'"
proof -
  have "(trace_ok m s' \<and> iterations s' = m) \<or> trace_ok m s'"
  proof (rule main_loop_rule [OF assms(1), where J = "trace_ok m" and Q = "trace_ok m"])
    show "trace_ok m s" by (rule assms(2))
    show "iterations s = 0" by (rule assms(3))
    show "0 \<le> m" by simp
  next
    fix it t t'
    assume "it < m" "iterations t = it" "trace_ok m t" "iteration L it t = Inr (t', False)"
    then show "trace_ok m t' \<and> iterations t' = Suc it"
      using iteration_trace [of L it t t' False m] by simp
  next
    fix it t t'
    assume "it < m" "iterations t = it" "trace_ok m t" "iteration L it t = Inr (t', True)"
    then show "trace_ok m t'"
      using iteration_trace [of L it t t' True m] by simp
  qed
  then show ?thesis by blast
qed

lemma iteration_tracked:
  assumes "iteration L it s = Inr (s3, b)" and "gbest_value s = best_of (particles_vector s)"
  shows "gbest_value s3 = best_of (particles_vector s3)"
proof -
  from assms(1) obtain dbg s2 bc where
    run: "efold (particle_step L) [0..<length (particles_vector s)]
       (s\<lparr>particle_debug := particle_debug s @ [dbg]\<rparr>) = Inr s2"
    and s3: "s3 = s2\<lparr>best_costs := bc, w := w s2 * wdamp L, iterations := it + 1\<rparr>"
    by (rule iteration_Inr)
  have "gbest_value s2 = best_of (particles_vector s2)"
    using particles_tracked [of L "s\<lparr>particle_debug := particle_debug s @ [dbg]\<rparr>" s2]
      run assms(2) by simp
  then show ?thesis by (simp add: s3)
qed

lemma PSO_run_total:
  assumes "default_PSO_params p ''maxit'' = Some (PyInt mi)" "0 \<le> mi"
    and "default_PSO_params p ''n_part'' = Some (PyInt n)"
    and "default_PSO_params p ''con'' \<noteq> None"
    and "default_PSO_params p ''velocity_limit_scale'' \<noteq> None"
    and "default_PSO_params p ''early_stopping_rounds'' = Some (PyInt r)" "0 \<le> r"
    and "length (problem_varmin P) = length (problem_varmax P)"
  shows "\<exists>L s0 s. PSO_setup P p a u = Inr (L, s0, nat mi) \<and> main_loop L [0..<nat mi] s0 = Inr s \<and>
            PSO_run P p a u = Inr s"
proof -
  obtain L s0 where stp: "PSO_setup P p a u = Inr (L, s0, nat mi)"
    using PSO_setup_total [OF assms(1-5)] assms(8) by metis
  have wf: "wf_ctx L (length (problem_varmin P))"
    by (rule PSO_setup_wf [OF stp assms(8,6,7)])
  note f = PSO_setup_facts [OF stp]
  obtain s where s: "main_loop L [0..<nat mi] s0 = Inr s"
    using main_loop_total [OF wf f(11) f(1) f(2)] by blast
  show ?thesis
    using stp s by (simp add: PSO_run_def)
qed

lemma demo_total:
  "\<exists>L s0 s. PSO_setup demo_problem demo_params () demo_draws = Inr (L, s0, 15) \<and>
      main_loop L [0..<15] s0 = Inr s \<and> PSO_run demo_problem demo_params () demo_draws = Inr s"
  using PSO_run_total [of demo_params 15 30 7 demo_problem "()" demo_draws]
  by (simp add: default_value default_con_value default_velocity_limit_scale_value
      demo_params_def demo_problem_def py_eq_def)

section \<open>Initialisation in binary mode\<close>

lemma initial_position_binary:
  assumes "initial_position q vmin vmax B u k = Inr (q', k')" and "truthy B"
  shows "position q' = map (\<lambda>i. u (k + i)) [0..<length vmin]"
  using assms
  by (auto simp add: initial_position_def ebind_Inr_iff np_random_uniform_def pick_def
      split: if_splits)

lemma init_particle_binary:
  assumes step: "init_particle L i s = Inr s'" and B: "params L ''BPSO'' = Some B" "truthy B"
  shows "\<exists>c x. x = map (\<lambda>i. draws L (rng s + i)) [0..<length (varmin L)]
      \<and> c = Fin (cost_function L x (args L))
      \<and> gbest_value s' = min (gbest_value s) c
      \<and> gbest_position s' = (if c < gbest_value s then x else gbest_position s)
      \<and> rng s' = rng s + 2 * length (varmin L)"
proof -
  from step obtain B' p1 k1 where
    lk: "lookup (params L) ''BPSO'' = Inr B'"
    and ip: "initial_position (particles_vector s ! i) (varmin L) (varmax L) B' (draws L) (rng s) = Inr (p1, k1)"
    and s': "s' = seed_bests L i p1 (s\<lparr>rng := k1\<rparr>)"
    by (rule init_particle_Inr)
  have "B' = B" using lk B(1) by (simp add: lookup_def)
  then have pos: "position p1 = map (\<lambda>i. draws L (rng s + i)) [0..<length (varmin L)]"
    using initial_position_binary [OF ip] B(2) by simp
  have k1: "k1 = rng s + 2 * length (varmin L)"
    using initial_position_result(5) [OF ip] .
  show ?thesis
    using seed_bests_result [OF s'] pos k1 by auto
qed

lemma init_loop_binary:
  assumes run: "efold (init_particle L) [0..<n] s = Inr s'"
    and B: "params L ''BPSO'' = Some B" "truthy B"
    and s: "rng s = 0" "gbest_value s = PInf"
  shows "if n = 0 then gbest_value s' = PInf
         else \<exists>j<n. gbest_position s' = block (draws L) (length (varmin L)) j \<and>
                 gbest_value s' = Fin (cost_function L (block (draws L) (length (varmin L)) j) (args L))"
proof -
  let ?D = "length (varmin L)"
  let ?I = "\<lambda>m t. rng t = 2 * ?D * m \<and>
      (if m = 0 then gbest_value t = PInf
       else \<exists>j<m. gbest_position t = block (draws L) ?D j \<and>
                 gbest_value t = Fin (cost_function L (block (draws L) ?D j) (args L)))"
  have "?I n s'"
  proof (rule efold_upt_inv [OF run, where I = ?I])
    show "?I 0 s" using s by simp
    show "0 \<le> n" by simp
  next
    fix j t t'
    assume j: "0 \<le> j" "j < n" and I: "?I j t" and step: "init_particle L j t = Inr t'"
    from init_particle_binary [OF step B] obtain c x where
      x: "x = map (\<lambda>i. draws L (rng t + i)) [0..<?D]"
      and c: "c = Fin (cost_function L x (args L))"
      and gv: "gbest_value t' = min (gbest_value t) c"
      and gp: "gbest_position t' = (if c < gbest_value t then x else gbest_position t)"
      and k: "rng t' = rng t + 2 * ?D"
      by blast
    have xb: "x = block (draws L) ?D j"
      using x I by (simp add: block_def)
    have "\<exists>i<Suc j. gbest_position t' = block (draws L) ?D i \<and>
                 gbest_value t' = Fin (cost_function L (block (draws L) ?D i) (args L))"
    proof (cases "c < gbest_value t")
      case True
      then have "gbest_position t' = block (draws L) ?D j \<and>
                 gbest_value t' = Fin (cost_function L (block (draws L) ?D j) (args L))"
        using gv gp xb c True by (simp add: min.absorb2 less_imp_le)
      then show ?thesis by blast
    next
      case False
      have ne: "j \<noteq> 0"
      proof
        assume "j = 0"
        then have "gbest_value t = PInf" using I by simp
        then have "c < gbest_value t" unfolding c by (simp add: less_xreal_def)
        then show False using False by simp
      qed
      from False have "gbest_position t' = gbest_position t" "gbest_value t' = gbest_value t"
        using gv gp False by (auto simp add: min.absorb1 not_less)
      then show ?thesis using I ne by (auto simp add: less_Suc_eq)
    qed
    then show "?I (Suc j) t'"
      using k I by simp
  qed
  then show ?thesis by simp
qed

lemma iteration_keeps_initial_best:
  assumes "iteration L it s = Inr (s3, b)"
  shows "gbest_value s3 \<le> gbest_value s \<and>
         (gbest_value s3 = gbest_value s \<longrightarrow> gbest_position s3 = gbest_position s) \<and>
         best_costs s3 ! 0 = best_costs s ! 0"
proof -
  from assms obtain dbg s2 bc where
    run: "efold (particle_step L) [0..<length (particles_vector s)]
       (s\<lparr>particle_debug := particle_debug s @ [dbg]\<rparr>) = Inr s2"
    and set: "setitem (best_costs s2) (int it + 1) (gbest_value s2) = Inr bc"
    and s3: "s3 = s2\<lparr>best_costs := bc, w := w s2 * wdamp L, iterations := it + 1\<rparr>"
    by (rule iteration_Inr)
  have st: "steady (s\<lparr>particle_debug := particle_debug s @ [dbg]\<rparr>) s2"
    by (rule particles_steady [OF run])
  have "bc = (best_costs s2)[nat (int it + 1) := gbest_value s2]"
    using setitem_nonneg [OF set] by simp
  then have "bc ! 0 = best_costs s2 ! 0"
    by (simp add: nat_add_distrib)
  then show ?thesis
    using st by (simp add: s3 steady_def)
qed

lemma main_loop_keeps_initial_best:
  assumes "main_loop L its s = Inr s'"
  shows "gbest_value s' \<le> gbest_value s \<and>
         (gbest_value s' = gbest_value s \<longrightarrow> gbest_position s' = gbest_position s) \<and>
         best_costs s' ! 0 = best_costs s ! 0"
proof (rule main_loop_inv [OF assms])
  show "gbest_value s \<le> gbest_value s \<and>
         (gbest_value s = gbest_value s \<longrightarrow> gbest_position s = gbest_position s) \<and>
         best_costs s ! 0 = best_costs s ! 0"
    by simp
next
  fix it t t' b
  assume I: "gbest_value t \<le> gbest_value s \<and>
         (gbest_value t = gbest_value s \<longrightarrow> gbest_position t = gbest_position s) \<and>
         best_costs t ! 0 = best_costs s ! 0"
    and step: "iteration L it t = Inr (t', b)"
  show "gbest_value t' \<le> gbest_value s \<and>
         (gbest_value t' = gbest_value s \<longrightarrow> gbest_position t' = gbest_position s) \<and>
         best_costs t' ! 0 = best_costs s ! 0"
    using iteration_keeps_initial_best [OF step] I by auto
qed

lemma PSO_setup_binary:
  assumes stp: "PSO_setup P p a u = Inr (L, s0, m)"
    and B: "default_PSO_params p ''BPSO'' = Some B" "truthy B"
    and n: "default_PSO_params p ''n_part'' = Some (PyInt n)" "1 \<le> n"
  shows "\<exists>j<nat n. gbest_position s0 = block u (length (problem_varmin P)) j \<and>
           gbest_value s0 = Fin (problem_cost_function P (block u (length (problem_varmin P)) j) a) \<and>
           best_costs s0 ! 0 = gbest_value s0"
proof -
  from stp obtain mi n' w0 s1 where
    n': "default_PSO_params p ''n_part'' = Some (PyInt n')"
    and run: "efold (init_particle L) [0..<nat n'] (start_state (nat n') (as_real w0)) = Inr s1"
    and s0: "s0 = s1\<lparr>best_costs := (replicate (nat mi + 1) (Fin 0))[0 := gbest_value s1]\<rparr>"
    by (rule PSO_setup_Inr)
  note f = PSO_setup_facts [OF stp]
  have nn: "n' = n" using n' n(1) by simp
  have "if nat n = 0 then gbest_value s1 = PInf
         else \<exists>j<nat n. gbest_position s1 = block (draws L) (length (varmin L)) j \<and>
                 gbest_value s1 = Fin (cost_function L (block (draws L) (length (varmin L)) j) (args L))"
    by (rule init_loop_binary [OF run [unfolded nn], of B])
       (use B f(4) in \<open>simp_all add: start_state_def\<close>)
  then show ?thesis
    using n(2) f s0 by auto
qed

lemma init_particle_binary_particle:
  assumes step: "init_particle L i s = Inr s'" and B: "params L ''BPSO'' = Some B" "truthy B"
  shows "\<exists>q x. x = map (\<lambda>i. draws L (rng s + i)) [0..<length (varmin L)]
      \<and> particles_vector s' = (particles_vector s)[i := q]
      \<and> position q = x \<and> pbest_position q = x
      \<and> pbest_value q = Fin (cost_function L x (args L))
      \<and> rng s' = rng s + 2 * length (varmin L)"
proof -
  from step obtain B' p1 k1 where
    lk: "lookup (params L) ''BPSO'' = Inr B'"
    and ip: "initial_position (particles_vector s ! i) (varmin L) (varmax L) B' (draws L) (rng s) = Inr (p1, k1)"
    and s': "s' = seed_bests L i p1 (s\<lparr>rng := k1\<rparr>)"
    by (rule init_particle_Inr)
  have "B' = B" using lk B(1) by (simp add: lookup_def)
  then have pos: "position p1 = map (\<lambda>i. draws L (rng s + i)) [0..<length (varmin L)]"
    using initial_position_binary [OF ip] B(2) by simp
  have k1: "k1 = rng s + 2 * length (varmin L)"
    using initial_position_result(5) [OF ip] .
  show ?thesis
    using seed_bests_result [OF s'] pos k1 by auto
qed

lemma init_loop_binary_particles:
  assumes run: "efold (init_particle L) [0..<n] s = Inr s'"
    and B: "params L ''BPSO'' = Some B" "truthy B"
    and s: "rng s = 0" "length (particles_vector s) = n"
  shows "\<forall>i<n. position (particles_vector s' ! i) = block (draws L) (length (varmin L)) i \<and>
               pbest_position (particles_vector s' ! i) = block (draws L) (length (varmin L)) i \<and>
               pbest_value (particles_vector s' ! i) =
                 Fin (cost_function L (block (draws L) (length (varmin L)) i) (args L))"
proof -
  let ?D = "length (varmin L)"
  let ?I = "\<lambda>m t. rng t = 2 * ?D * m \<and> length (particles_vector t) = n \<and>
      (\<forall>i<m. position (particles_vector t ! i) = block (draws L) ?D i \<and>
               pbest_position (particles_vector t ! i) = block (draws L) ?D i \<and>
               pbest_value (particles_vector t ! i) =
                 Fin (cost_function L (block (draws L) ?D i) (args L)))"
  have "?I n s'"
  proof (rule efold_upt_inv [OF run, where I = ?I])
    show "?I 0 s" using s by simp
    show "0 \<le> n" by simp
  next
    fix j t t'
    assume j: "0 \<le> j" "j < n" and I: "?I j t" and step: "init_particle L j t = Inr t'"
    from init_particle_binary_particle [OF step B] obtain q x where
      x: "x = map (\<lambda>i. draws L (rng t + i)) [0..<?D]"
      and pv: "particles_vector t' = (particles_vector t)[j := q]"
      and q: "position q = x" "pbest_position q = x"
        "pbest_value q = Fin (cost_function L x (args L))"
      and k: "rng t' = rng t + 2 * ?D"
      by blast
    have xb: "x = block (draws L) ?D j"
      using x I by (simp add: block_def)
    have jl: "j < length (particles_vector t)" using I j by simp
    have "\<forall>i<Suc j. position (particles_vector t' ! i) = block (draws L) ?D i \<and>
               pbest_position (particles_vector t' ! i) = block (draws L) ?D i \<and>
               pbest_value (particles_vector t' ! i) =
                 Fin (cost_function L (block (draws L) ?D i) (args L))"
      unfolding pv using I q xb jl by (auto simp add: nth_list_update less_Suc_eq)
    then show "?I (Suc j) t'"
      using k I pv by simp
  qed
  then show ?thesis by simp
qed

lemma PSO_setup_binary_particles:
  assumes stp: "PSO_setup P p a u = Inr (L, s0, m)"
    and B: "default_PSO_params p ''BPSO'' = Some B" "truthy B"
    and n: "default_PSO_params p ''n_part'' = Some (PyInt n)"
  shows "\<forall>i<nat n.
           position (particles_vector s0 ! i) = block u (length (problem_varmin P)) i \<and>
           pbest_position (particles_vector s0 ! i) = block u (length (problem_varmin P)) i \<and>
           pbest_value (particles_vector s0 ! i) =
             Fin (problem_cost_function P (block u (length (problem_varmin P)) i) a)"
proof -
  from stp obtain mi n' w0 s1 where
    n': "default_PSO_params p ''n_part'' = Some (PyInt n')"
    and run: "efold (init_particle L) [0..<nat n'] (start_state (nat n') (as_real w0)) = Inr s1"
    and s0: "s0 = s1\<lparr>best_costs := (replicate (nat mi + 1) (Fin 0))[0 := gbest_value s1]\<rparr>"
    by (rule PSO_setup_Inr)
  note f = PSO_setup_facts [OF stp]
  have nn: "n' = n" using n' n by simp
  have "\<forall>i<nat n. position (particles_vector s1 ! i) = block (draws L) (length (varmin L)) i \<and>
               pbest_position (particles_vector s1 ! i) = block (draws L) (length (varmin L)) i \<and>
               pbest_value (particles_vector s1 ! i) =
                 Fin (cost_function L (block (draws L) (length (varmin L)) i) (args L))"
    by (rule init_loop_binary_particles [OF run [unfolded nn], of B])
       (use B f(4) in \<open>simp_all add: start_state_def\<close>)
  then show ?thesis
    using f s0 by simp
qed

lemma demo_block_not_binary:
  "block demo_draws 2 j ! 1 \<notin> {0, 1}"
proof -
  have "block demo_draws 2 j ! 1 = demo_draws (2 * 2 * j + 1)"
    by (simp add: block_def)
  also have "\<dots> = demo_draws (4 * j + 1)"
    by simp
  finally have v: "block demo_draws 2 j ! 1 = real ((4 * j + 1) mod 10) / 10"
    by (simp only: demo_draws_def)
  have a: "(4 * j + 1) mod 10 \<noteq> 0" by presburger
  have b: "(4 * j + 1) mod 10 < 10" by simp
  from a b show ?thesis unfolding v by simp
qed

section \<open>Shapes of the bounds\<close>

lemma PSO_setup_shape_error:
  assumes "default_PSO_params p ''con'' \<noteq> None"
    and "default_PSO_params p ''velocity_limit_scale'' \<noteq> None"
    and "broadcast2 (-) (problem_varmax P) (problem_varmin P) = Inl e"
  shows "PSO_setup P p a u = Inl e"
proof -
  obtain v1 v2 v3 v4 v5 v6 v7 v8 v9 where
    "default_PSO_params p ''maxit'' = Some v1" "default_PSO_params p ''n_part'' = Some v2"
    "default_PSO_params p ''w'' = Some v3" "default_PSO_params p ''wdamp'' = Some v4"
    "default_PSO_params p ''c1'' = Some v5" "default_PSO_params p ''c2'' = Some v6"
    "default_PSO_params p ''con'' = Some v7" "default_PSO_params p ''display_info'' = Some v8"
    "default_PSO_params p ''velocity_limit_scale'' = Some v9"
    using default_present [of p] assms(1,2) by blast
  then show ?thesis
    using assms(3) unfolding PSO_setup_def Let_def
    by (simp add: lookup_Some)
qed

lemma PSO_setup_no_scale:
  assumes "default_PSO_params p ''con'' \<noteq> None"
    and "default_PSO_params p ''velocity_limit_scale'' = None"
  shows "PSO_setup P p a u = Inl KeyError"
proof -
  obtain v1 v2 v3 v4 v5 v6 v7 v8 where
    "default_PSO_params p ''maxit'' = Some v1" "default_PSO_params p ''n_part'' = Some v2"
    "default_PSO_params p ''w'' = Some v3" "default_PSO_params p ''wdamp'' = Some v4"
    "default_PSO_params p ''c1'' = Some v5" "default_PSO_params p ''c2'' = Some v6"
    "default_PSO_params p ''con'' = Some v7" "default_PSO_params p ''display_info'' = Some v8"
    using default_present [of p] assms(1) by blast
  then show ?thesis
    using assms(2) unfolding PSO_setup_def Let_def
    by (simp add: lookup_Some lookup_None)
qed

lemma PSO_setup_eval:
  assumes "default_PSO_params p ''maxit'' = Some (PyInt mi)" "0 \<le> mi"
    and "default_PSO_params p ''n_part'' = Some (PyInt n)"
    and "default_PSO_params p ''w'' = Some w0" "default_PSO_params p ''wdamp'' = Some wd0"
    and "default_PSO_params p ''c1'' = Some c10" "default_PSO_params p ''c2'' = Some c20"
    and "default_PSO_params p ''con'' = Some con0"
    and "default_PSO_params p ''velocity_limit_scale'' = Some scale"
    and "broadcast2 (-) (problem_varmax P) (problem_varmin P) = Inr dv"
    and "L = \<lparr>cost_function = problem_cost_function P, args = a,
               varmin = problem_varmin P, varmax = problem_varmax P,
               params = default_PSO_params p, con = as_real con0, c1 = as_real c10, c2 = as_real c20,
               wdamp = as_real wd0, min_velocity = map uminus (map (\<lambda>x. as_real scale * x) dv),
               max_velocity = map (\<lambda>x. as_real scale * x) dv, draws = u\<rparr>"
    and "efold (init_particle L) [0..<nat n] (start_state (nat n) (as_real w0)) = Inr s1"
  shows "PSO_setup P p a u =
     Inr (L, s1\<lparr>best_costs := (replicate (nat mi + 1) (Fin 0))[0 := gbest_value s1]\<rparr>, nat mi)"
proof -
  obtain di where di: "default_PSO_params p ''display_info'' = Some di"
    using default_present [of p] by blast
  have z: "setitem (replicate (nat (mi + 1)) (Fin 0)) 0 (gbest_value s1) =
      Inr ((replicate (nat (mi + 1)) (Fin 0))[0 := gbest_value s1])"
    using setitem_in_range [of 0 "replicate (nat (mi + 1)) (Fin 0)"] assms(2) by simp
  have m: "nat (mi + 1) = nat mi + 1"
    using assms(2) by (simp add: nat_add_distrib)
  show ?thesis
    unfolding PSO_setup_def Let_def
    using assms(1-10) di assms(12) z unfolding assms(11)
    by (simp add: lookup_def m)
qed

lemma initial_position_short_varmin:
  assumes "length vmin = 1" and "length vmax \<noteq> 1"
  shows "initial_position q vmin vmax B u k = Inl ValueError"
  using assms by (simp add: initial_position_def np_random_uniform_def)

lemma PSO_setup_short_varmin:
  assumes "default_PSO_params p ''con'' \<noteq> None"
    and "default_PSO_params p ''velocity_limit_scale'' \<noteq> None"
    and "default_PSO_params p ''n_part'' = Some (PyInt n)" "1 \<le> n"
    and "length (problem_varmin P) = 1" "length (problem_varmax P) \<noteq> 1"
  shows "PSO_setup P p a u = Inl ValueError"
proof -
  obtain v1 v3 v4 v5 v6 v7 v8 v9 B where k:
    "default_PSO_params p ''maxit'' = Some v1"
    "default_PSO_params p ''w'' = Some v3" "default_PSO_params p ''wdamp'' = Some v4"
    "default_PSO_params p ''c1'' = Some v5" "default_PSO_params p ''c2'' = Some v6"
    "default_PSO_params p ''con'' = Some v7" "default_PSO_params p ''display_info'' = Some v8"
    "default_PSO_params p ''velocity_limit_scale'' = Some v9"
    "default_PSO_params p ''BPSO'' = Some B"
    using default_present [of p] assms(1,2) by blast
  have sp: "broadcast2 (-) (problem_varmax P) (problem_varmin P) =
      Inr (map (\<lambda>x. x - hd (problem_varmin P)) (problem_varmax P))"
    using assms(5,6) by (simp add: broadcast2_def)
  have upt: "[0..<nat n] = 0 # [1..<nat n]"
    using assms(4) by (simp add: upt_conv_Cons)
  have ip: "init_particle L 0 s = Inl ValueError"
    if "varmin L = problem_varmin P" "varmax L = problem_varmax P"
      "params L = default_PSO_params p" for L :: "'a ctx" and s
    unfolding init_particle_def
    using that k(9) assms(5,6) by (simp add: lookup_def initial_position_short_varmin)
  show ?thesis
    unfolding PSO_setup_def Let_def
    using k(1-8) assms(3) sp by (simp add: lookup_def upt ip)
qed

lemma update_position_short_varmax:
  assumes "\<not> truthy B" and "length (position self) = n" "length (velocity self) = n"
    and "length vmin = n" "length vmax \<noteq> n"
  shows "update_position self vmin vmax B u k = Inl ValueError"
  using assms
  by (simp add: update_position_def broadcast2_same np_max2_same np_min2_def)

lemma particle_step_short_varmax:
  assumes l: "lens D s" and i: "i < length (particles_vector s)"
    and D: "length (varmin L) = D" "length (varmax L) \<noteq> D"
      "length (min_velocity L) = D" "length (max_velocity L) = D"
    and B: "params L ''BPSO'' = Some B" "\<not> truthy B"
  shows "particle_step L i s = Inl ValueError"
proof -
  let ?p = "particles_vector s ! i"
  note ln = lens_nth [OF l i]
  obtain p1 where uv: "update_velocity ?p (con L) (w s) (c1 L) (c2 L)
              (gbest_position s) (min_velocity L) (max_velocity L) (draws L) (rng s) = Inr (p1, rng s + 2)"
    and p1: "length (velocity p1) = D" "position p1 = position ?p"
    using update_velocity_total [of ?p D "gbest_position s" "min_velocity L" "max_velocity L"]
      ln D by blast
  have up: "update_position p1 (varmin L) (varmax L) B (draws L) (rng s + 2) = Inl ValueError"
    by (rule update_position_short_varmax [OF B(2) _ p1(1) D(1,2)]) (use p1 ln in simp)
  show ?thesis
    unfolding particle_step_def using uv B(1) up by (simp add: lookup_def)
qed

lemma iteration_short_varmax:
  assumes l: "lens D s" and ne: "particles_vector s \<noteq> []"
    and D: "length (varmin L) = D" "length (varmax L) \<noteq> D"
      "length (min_velocity L) = D" "length (max_velocity L) = D"
    and B: "params L ''BPSO'' = Some B" "\<not> truthy B"
  shows "iteration L it s = Inl ValueError"
proof -
  have "\<forall>p\<in>set (particles_vector s). length (position p) = length (gbest_position s)"
    using l by (auto simp add: lens_def)
  then obtain dbg where dbg: "examine_particles (particles_vector s) (gbest_position s) = Inr dbg"
    using examine_total by blast
  let ?s1 = "s\<lparr>particle_debug := particle_debug s @ [dbg]\<rparr>"
  have l1: "lens D ?s1" using l by (simp add: lens_def)
  have i: "0 < length (particles_vector ?s1)" using ne by simp
  have upt: "[0..<length (particles_vector ?s1)] = 0 # [1..<length (particles_vector ?s1)]"
    using i by (simp add: upt_conv_Cons)
  have "particle_step L 0 ?s1 = Inl ValueError"
    by (rule particle_step_short_varmax [OF l1 i D B])
  then have "efold (particle_step L) [0..<length (particles_vector ?s1)] ?s1 = Inl ValueError"
    unfolding upt by simp
  then show ?thesis
    unfolding iteration_def Let_def using dbg by simp
qed

lemma PSO_run_short_varmax:
  assumes con: "default_PSO_params p ''con'' \<noteq> None"
    and n: "default_PSO_params p ''n_part'' = Some (PyInt n)" "1 \<le> n"
    and mi: "default_PSO_params p ''maxit'' = Some (PyInt mi)" "1 \<le> mi"
    and B: "default_PSO_params p ''BPSO'' = Some B" "\<not> truthy B"
    and len: "length (problem_varmax P) = 1" "length (problem_varmin P) \<noteq> 1"
  shows "default_PSO_params p ''velocity_limit_scale'' \<noteq> None"
    and "PSO_run P p a u = Inl ValueError"
proof -
  have B0: "py_eq B 0"
    using B(2) by (simp add: truthy_def py_eq_def)
  show vls: "default_PSO_params p ''velocity_limit_scale'' \<noteq> None"
    using B B0 unfolding default_velocity_limit_scale_value BPSO_after_defaulting
    by (auto split: option.splits)
  have mi0: "0 \<le> mi" using mi(2) by simp
  obtain L s0 where stp: "PSO_setup P p a u = Inr (L, s0, nat mi)"
    using PSO_setup_total [OF mi(1) mi0 n(1) con vls, of P a u] len(1) by blast
  note f = PSO_setup_facts [OF stp]
  from stp obtain n' w0 wd0 c10 c20 con0 scale dv s1 mi' where
    n': "default_PSO_params p ''n_part'' = Some (PyInt n')"
    and sp: "broadcast2 (-) (problem_varmax P) (problem_varmin P) = Inr dv"
    and L: "L = \<lparr>cost_function = problem_cost_function P, args = a,
               varmin = problem_varmin P, varmax = problem_varmax P,
               params = default_PSO_params p, con = as_real con0, c1 = as_real c10, c2 = as_real c20,
               wdamp = as_real wd0, min_velocity = map uminus (map (\<lambda>x. as_real scale * x) dv),
               max_velocity = map (\<lambda>x. as_real scale * x) dv, draws = u\<rparr>"
    and run: "efold (init_particle L) [0..<nat n'] (start_state (nat n') (as_real w0)) = Inr s1"
    and s0: "s0 = s1\<lparr>best_costs := (replicate (nat mi' + 1) (Fin 0))[0 := gbest_value s1]\<rparr>"
    by (rule PSO_setup_Inr)
  have nn: "n' = n" using n' n(1) by simp
  have "length (particles_vector s1) = nat n"
    using init_loop_tracked [OF run] by (simp add: start_state_def nn)
  then have ne: "particles_vector s0 \<noteq> []"
    using n(2) s0 by auto
  have dv: "length dv = length (problem_varmin P)"
    using sp len by (auto simp add: broadcast2_def)
  have it: "iteration L 0 s0 = Inl ValueError"
    by (rule iteration_short_varmax [OF f(11) ne, of L B])
       (use len dv B in \<open>simp_all add: L\<close>)
  have upt: "[0..<nat mi] = 0 # [1..<nat mi]"
    using mi(2) by (simp add: upt_conv_Cons)
  show "PSO_run P p a u = Inl ValueError"
    unfolding PSO_run_def stp using it by (simp add: upt)
qed

lemma sigmoid_pos: "0 < sigmoid x"
  by (simp add: sigmoid_def add_pos_pos)

lemma sigmoid_upper:
  assumes "x < 2"
  shows "sigmoid x \<le> 1 / (2 - x)"
proof -
  have "1 + (- x) \<le> exp (- x)"
    by (rule exp_ge_add_one_self)
  then have "2 - x \<le> 1 + exp (- x)"
    by simp
  then show ?thesis
    unfolding sigmoid_def using assms by (simp add: frac_le)
qed

section \<open>Early stopping\<close>









section \<open>Steps by reference\<close>

lemma ref_update_velocity_store:
  assumes "ref_update_velocity h self cn wv a1 a2 g mn mx u k = Inr (q, h1, k1)"
  shows "\<exists>xs. h1 = h @ [xs] \<and> q = self\<lparr>velocity_at := length h\<rparr>"
  using assms
  by (auto simp add: ref_update_velocity_def alloc_def ebind_Inr_iff)

lemma ref_update_position_store:
  assumes "ref_update_position h self vmin vmax B u k = Inr (q, h1, k1)"
  shows "\<exists>xs. h1 = h @ [xs] \<and> q = self\<lparr>position_at := length h\<rparr>"
  using assms
  by (auto simp add: ref_update_position_def alloc_def ebind_Inr_iff)

lemma ref_particle_step_Inr:
  assumes "ref_particle_step L wv i s = Inr s'"
  obtains xs ys k2 where
    "s' = ref_compare_cost L i
            ((particles_at s ! i)\<lparr>velocity_at := length (store s),
                                   position_at := Suc (length (store s))\<rparr>)
            (s\<lparr>store := store s @ [xs, ys], rng_at := k2\<rparr>)"
proof -
  from assms obtain p1 h1 k1 B p2 h2 k2 where
    uv: "ref_update_velocity (store s) (particles_at s ! i) (con L) wv (c1 L) (c2 L)
              (gbest_position_at s) (min_velocity L) (max_velocity L) (draws L) (rng_at s)
         = Inr (p1, h1, k1)"
    and up: "ref_update_position h1 p1 (varmin L) (varmax L) B (draws L) k1 = Inr (p2, h2, k2)"
    and s': "s' = ref_compare_cost L i p2 (s\<lparr>store := h2, rng_at := k2\<rparr>)"
    unfolding ref_particle_step_def by (auto simp add: ebind_Inr_iff)
  from ref_update_velocity_store [OF uv] obtain xs where
    1: "h1 = store s @ [xs]" "p1 = (particles_at s ! i)\<lparr>velocity_at := length (store s)\<rparr>"
    by blast
  from ref_update_position_store [OF up] obtain ys where
    2: "h2 = h1 @ [ys]" "p2 = p1\<lparr>position_at := length h1\<rparr>"
    by blast
  show ?thesis
    by (rule that [where xs = xs and ys = ys and ?k2.0 = k2]) (simp add: s' 1 2)
qed

lemma ref_compare_cost_store: "store (ref_compare_cost L i q s) = store s"
  by (simp add: ref_compare_cost_def Let_def)

lemma ref_particle_step_store:
  assumes "ref_particle_step L wv i s = Inr s'"
  shows "\<exists>new. store s' = store s @ new"
  using assms by (rule ref_particle_step_Inr) (simp add: ref_compare_cost_store)

lemma ref_particle_step_alias:
  assumes step: "ref_particle_step L wv i s = Inr s'"
    and better: "gbest_value_at s' < gbest_value_at s" and i: "i < length (particles_at s)"
  shows "gbest_position_at s' = Suc (length (store s)) \<and>
         pbest_position_at (particles_at s' ! i) = Suc (length (store s)) \<and>
         position_at (particles_at s' ! i) = Suc (length (store s)) \<and>
         Suc (length (store s)) < length (store s')"
proof -
  from step obtain xs ys k2 where
    s': "s' = ref_compare_cost L i
            ((particles_at s ! i)\<lparr>velocity_at := length (store s),
                                   position_at := Suc (length (store s))\<rparr>)
            (s\<lparr>store := store s @ [xs, ys], rng_at := k2\<rparr>)"
    by (rule ref_particle_step_Inr)
  show ?thesis
    using better i unfolding s' ref_compare_cost_def Let_def
    by (auto split: if_splits)
qed

lemma ref_steps_store:
  assumes "ref_steps L steps s = Inr s'"
  shows "\<exists>new. store s' = store s @ new"
proof (rule efold_inv [OF assms [unfolded ref_steps_def], where I = "\<lambda>t. \<exists>new. store t = store s @ new"])
  show "\<exists>new. store s = store s @ new" by simp
next
  fix x :: "real \<times> nat" and t t'
  assume "\<exists>new. store t = store s @ new"
    and "(case x of (inertia, j) \<Rightarrow> ref_particle_step L inertia j) t = Inr t'"
  then show "\<exists>new. store t' = store s @ new"
    using ref_particle_step_store [of L "fst x" "snd x" t t'] by (auto simp add: split_beta)
qed

lemma sample_step_1:
  "ref_particle_step sample_ctx 1 0 sample_refs =
     Inr \<lparr>store = [[5], [- 1], [5], [5], [- 1], [4]],
          particles_at = [\<lparr>position_at = 5, velocity_at = 4, pbest_position_at = 5,
                           pbest_value_at = Fin 4\<rparr>],
          gbest_value_at = Fin 4, gbest_position_at = 5, rng_at = 2\<rparr>"
  by (simp add: ref_particle_step_def ref_update_velocity_def ref_update_position_def
      update_velocity_def update_position_def deref_def alloc_def sample_ctx_def sample_refs_def
      broadcast2_def np_max2_def np_min2_def lookup_def truthy_def ref_compare_cost_def
      demo_draws_def less_xreal_def Let_def)

lemma sample_step_2:
  "ref_particle_step sample_ctx 1 0
     \<lparr>store = [[5], [- 1], [5], [5], [- 1], [4]],
          particles_at = [\<lparr>position_at = 5, velocity_at = 4, pbest_position_at = 5,
                           pbest_value_at = Fin 4\<rparr>],
          gbest_value_at = Fin 4, gbest_position_at = 5, rng_at = 2\<rparr> =
     Inr \<lparr>store = [[5], [- 1], [5], [5], [- 1], [4], [- 1], [3]],
          particles_at = [\<lparr>position_at = 7, velocity_at = 6, pbest_position_at = 7,
                           pbest_value_at = Fin 3\<rparr>],
          gbest_value_at = Fin 3, gbest_position_at = 7, rng_at = 4\<rparr>"
  by (simp add: ref_particle_step_def ref_update_velocity_def ref_update_position_def
      update_velocity_def update_position_def deref_def alloc_def sample_ctx_def
      broadcast2_def np_max2_def np_min2_def lookup_def truthy_def ref_compare_cost_def
      demo_draws_def less_xreal_def Let_def)

lemma deref_append:
  assumes "position_at q < length h" "velocity_at q < length h" "pbest_position_at q < length h"
  shows "deref (h @ new) q = deref h q"
  using assms by (simp add: deref_def nth_append)

lemma ref_compare_cost_refines:
  "lift (ref_compare_cost L i p2 s) t = compare_cost L i (deref (store s) p2) (lift s t)"
  unfolding compare_cost_def ref_compare_cost_def Let_def
  by (simp add: lift_def deref_def map_update)

lemma ref_particle_step_refines:
  assumes step: "ref_particle_step L (w t) i r = Inr r'"
    and al: "allocated r" and i: "i < length (particles_at r)"
  shows "particle_step L i (lift r t) = Inr (lift r' t) \<and> allocated r'"
proof -
  let ?h = "store r"
  let ?q = "particles_at r ! i"
  have q: "position_at ?q < length ?h" "velocity_at ?q < length ?h"
    "pbest_position_at ?q < length ?h" and g: "gbest_position_at r < length ?h"
    using al i by (simp_all add: allocated_def)
  from step obtain p1 h1 k1 B p2 h2 k2 where
    uv: "ref_update_velocity ?h ?q (con L) (w t) (c1 L) (c2 L)
              (gbest_position_at r) (min_velocity L) (max_velocity L) (draws L) (rng_at r)
         = Inr (p1, h1, k1)"
    and B: "lookup (params L) ''BPSO'' = Inr B"
    and up: "ref_update_position h1 p1 (varmin L) (varmax L) B (draws L) k1 = Inr (p2, h2, k2)"
    and r': "r' = ref_compare_cost L i p2 (r\<lparr>store := h2, rng_at := k2\<rparr>)"
    unfolding ref_particle_step_def by (auto simp add: ebind_Inr_iff)
  from uv obtain v1 where
    uv': "update_velocity (deref ?h ?q) (con L) (w t) (c1 L) (c2 L) (?h ! gbest_position_at r)
            (min_velocity L) (max_velocity L) (draws L) (rng_at r) = Inr (v1, k1)"
    and h1: "h1 = ?h @ [velocity v1]" and p1: "p1 = ?q\<lparr>velocity_at := length ?h\<rparr>"
    by (auto simp add: ref_update_velocity_def alloc_def ebind_Inr_iff)
  have v1: "v1 = (deref ?h ?q)\<lparr>velocity := velocity v1\<rparr>"
    using uv' by (auto simp add: update_velocity_def Let_def ebind_Inr_iff)
  have d1: "deref h1 p1 = v1"
    using q by (subst v1) (simp add: deref_def h1 p1 nth_append)
  from up obtain v2 where
    up': "update_position (deref h1 p1) (varmin L) (varmax L) B (draws L) k1 = Inr (v2, k2)"
    and h2: "h2 = h1 @ [position v2]" and p2: "p2 = p1\<lparr>position_at := length h1\<rparr>"
    by (auto simp add: ref_update_position_def alloc_def ebind_Inr_iff)
  have v2: "v2 = v1\<lparr>position := position v2\<rparr>"
    using up' unfolding d1
    by (auto simp add: update_position_def Let_def ebind_Inr_iff split: if_splits)
  have d2: "deref h2 p2 = v2"
    using q by (subst v2, subst v1) (simp add: deref_def h1 h2 p1 p2 nth_append)
  have others: "map (deref h2) (particles_at r) = map (deref ?h) (particles_at r)"
    using al unfolding h1 h2 by (auto simp add: allocated_def deref_def nth_append)
  have gb: "h2 ! gbest_position_at r = ?h ! gbest_position_at r"
    using g by (simp add: h1 h2 nth_append)
  have run: "particle_step L i (lift r t) = Inr (compare_cost L i v2 (lift r t\<lparr>rng := k2\<rparr>))"
    unfolding particle_step_def using uv' B up' d1 i
    by (simp add: lift_def)
  have mid: "lift (r\<lparr>store := h2, rng_at := k2\<rparr>) t = lift r t\<lparr>rng := k2\<rparr>"
    using others gb by (simp add: lift_def)
  have same: "lift r' t = compare_cost L i v2 (lift r t\<lparr>rng := k2\<rparr>)"
    unfolding r' ref_compare_cost_refines mid using d2 by simp
  have "allocated r'"
    using al i q g unfolding r' ref_compare_cost_def Let_def allocated_def h1 h2 p1 p2
    by (auto dest!: set_update_subset_insert [THEN subsetD] simp add: less_Suc_eq)
  with run same show ?thesis by simp
qed

section \<open>The constriction factor when the caller omits it\<close>

text \<open>
  Claim C1.  When the caller omits \<open>con\<close>, the defaulting stores 0.7298437881283576
  if both \<open>w\<close> and \<open>wdamp\<close> differ from 1 (lemma \<open>default_con_value\<close>), and the claim
  says that otherwise the run proceeds with constriction factor 1.  It does not: when
  \<open>con\<close> is omitted and \<open>w\<close> or \<open>wdamp\<close> is 1 after defaulting (in particular when
  both are omitted as well), no value is stored for \<open>con\<close>, and \<open>PSO\<close> raises
  \<open>KeyError\<close> at \<open>con = params['con']\<close>, before any particle is created.
\<close>

theorem PSO_missing_con_raises:
  assumes "p ''con'' = None"
    and "(case p ''w'' of None \<Rightarrow> True | Some v \<Rightarrow> py_eq v 1) \<or>
         (case p ''wdamp'' of None \<Rightarrow> True | Some v \<Rightarrow> py_eq v 1)"
  shows "PSO problem p a u = Inl KeyError"
proof -
  have "default_PSO_params p ''con'' = None"
    using assms by (auto simp add: default_con_value split: option.splits)
  then show ?thesis
    by (simp add: PSO_def PSO_run_no_con)
qed

theorem PSO_missing_con_raises_witness:
  "(Map.empty :: params) ''con'' = None \<and>
   PSO \<lparr>problem_cost_function = (\<lambda>x a. 0), problem_varmin = [0, 0], problem_varmax = [1, 1]\<rparr>
     Map.empty () (\<lambda>k. 1 / 2) = Inl KeyError"
  using PSO_missing_con_raises
    [of Map.empty "\<lparr>problem_cost_function = (\<lambda>x a. 0), problem_varmin = [0, 0],
                         problem_varmax = [1, 1]\<rparr>" "()" "\<lambda>k. 1 / 2"]
  by simp

section \<open>The velocity limit scale in binary mode\<close>

text \<open>
  Claim C2.  The claim says that a \<open>velocity_limit_scale\<close> supplied by the caller is
  the one used.  With \<open>BPSO\<close> equal to 1 the \<open>elif\<close> branch of the defaulting stores 1
  whether or not the caller supplied a value, so the supplied value is lost: the scale
  that \<open>PSO\<close> reads back to compute \<open>max_velocity\<close> is 1.
\<close>

theorem BPSO_overwrites_velocity_limit_scale:
  assumes "p ''BPSO'' = Some b" and "py_eq b 1"
  shows "default_PSO_params p ''velocity_limit_scale'' = Some (PyInt 1)"
  using assms by (simp add: default_velocity_limit_scale_value py_eq_def)

theorem BPSO_overwrites_velocity_limit_scale_witness:
  "default_PSO_params [''BPSO'' \<mapsto> PyInt 1, ''velocity_limit_scale'' \<mapsto> PyFloat (1 / 2)]
     ''velocity_limit_scale'' = Some (PyInt 1)
   \<and> Some (PyInt 1) \<noteq> Some (PyFloat (1 / 2))"
  using BPSO_overwrites_velocity_limit_scale
    [of "[''BPSO'' \<mapsto> PyInt 1, ''velocity_limit_scale'' \<mapsto> PyFloat (1 / 2)]" "PyInt 1"]
  by (simp add: py_eq_def)

section \<open>The trace of best costs\<close>

text \<open>
  Claim C4.  For every run that returns, the recorded trace never increases:
  \<open>best_costs[k+1] \<le> best_costs[k]\<close> for every \<open>k\<close> below the number of
  iterations that ran, and the last entry written is the returned \<open>gbest_value\<close>.
\<close>

theorem best_costs_never_increase:
  assumes "PSO_run P p a u = Inr s"
  shows "iterations s < length (best_costs s) \<and>
         best_costs s ! iterations s = gbest_value s \<and>
         (\<forall>k<iterations s. best_costs s ! (k + 1) \<le> best_costs s ! k)"
proof -
  from assms obtain L s0 m where stp: "PSO_setup P p a u = Inr (L, s0, m)"
    and loop: "main_loop L [0..<m] s0 = Inr s"
    by (rule PSO_run_Inr)
  have "trace_ok m s"
    by (rule main_loop_trace [OF loop PSO_setup_facts(1,2) [OF stp]])
  then show ?thesis
    by (simp add: trace_ok_def)
qed

theorem best_costs_never_increase_witness:
  "\<exists>s. PSO_run demo_problem demo_params () demo_draws = Inr s \<and>
       iterations s < length (best_costs s) \<and>
       best_costs s ! iterations s = gbest_value s \<and>
       (\<forall>k<iterations s. best_costs s ! (k + 1) \<le> best_costs s ! k)"
proof -
  obtain s where s: "PSO_run demo_problem demo_params () demo_draws = Inr s"
    using demo_total by blast
  show ?thesis
    using s best_costs_never_increase [OF s] by blast
qed

section \<open>The global best is the least personal best\<close>

text \<open>
  Claim C5.  In the state after any number \<open>k\<close> of passes of the main loop
  (\<open>k = 0\<close> is the state after initialisation; a run that returned early stays in the
  state it returned), \<open>gbest_value\<close> is the minimum of the particles'
  \<open>pbest_value\<close>, so no \<open>pbest_value\<close> is below it.  The same holds inside the next
  pass, after the first \<open>j\<close> particles have been updated.  The minimum over an empty
  swarm is \<open>inf\<close>.
\<close>

theorem gbest_is_least_pbest:
  assumes "PSO_setup P p a u = Inr (L, s0, m)" and "main_loop L [0..<k] s0 = Inr s"
  shows "gbest_value s = Min (insert PInf (pbest_value ` set (particles_vector s))) \<and>
         (\<forall>q\<in>set (particles_vector s). gbest_value s \<le> pbest_value q) \<and>
         (\<forall>j dbg t. j \<le> length (particles_vector s) \<and>
            efold (particle_step L) [0..<j] (s\<lparr>particle_debug := dbg\<rparr>) = Inr t \<longrightarrow>
            gbest_value t = Min (insert PInf (pbest_value ` set (particles_vector t))) \<and>
            (\<forall>q\<in>set (particles_vector t). gbest_value t \<le> pbest_value q))"
proof -
  have s: "gbest_value s = best_of (particles_vector s)"
    by (rule main_loop_inv [OF assms(2), where I = "\<lambda>t. gbest_value t = best_of (particles_vector t)"])
       (use PSO_setup_facts(3) [OF assms(1)] iteration_tracked in auto)
  have "gbest_value t = Min (insert PInf (pbest_value ` set (particles_vector t))) \<and>
            (\<forall>q\<in>set (particles_vector t). gbest_value t \<le> pbest_value q)"
    if j: "j \<le> length (particles_vector s)"
      and run: "efold (particle_step L) [0..<j] (s\<lparr>particle_debug := dbg\<rparr>) = Inr t"
    for j dbg t
  proof (rule tracked_Min)
    show "gbest_value t = best_of (particles_vector t)"
      by (rule particles_tracked_some [OF run]) (use j s in simp_all)
  qed
  then show ?thesis
    using tracked_Min [OF s] by blast
qed

theorem gbest_is_least_pbest_witness:
  "\<exists>L s0 s. PSO_setup demo_problem demo_params () demo_draws = Inr (L, s0, 15) \<and>
      main_loop L [0..<15] s0 = Inr s \<and>
      gbest_value s = Min (insert PInf (pbest_value ` set (particles_vector s))) \<and>
      (\<forall>q\<in>set (particles_vector s). gbest_value s \<le> pbest_value q)"
proof -
  obtain L s0 s where a: "PSO_setup demo_problem demo_params () demo_draws = Inr (L, s0, 15)"
    and b: "main_loop L [0..<15] s0 = Inr s"
    using demo_total by blast
  show ?thesis
    using a b gbest_is_least_pbest [OF a b] by blast
qed

section \<open>The velocity update\<close>

text \<open>
  Claim C6.  A call of \<open>update_velocity\<close> on arrays of one length \<open>n\<close> (the only
  calls \<open>PSO\<close> makes) consumes exactly two draws of the generator, \<open>r1 = u k\<close> and
  \<open>r2 = u (k + 1)\<close>, whatever \<open>n\<close> is; the new velocity is
  \<open>con * (w * velocity[i] + c1 * r1 * (pbest_position[i] - position[i])
  + c2 * r2 * (gbest_position[i] - position[i]))\<close> in every dimension, then raised to at
  least \<open>min_velocity[i]\<close> and lowered to at most \<open>max_velocity[i]\<close>, which puts it in
  \<open>[min_velocity[i], max_velocity[i]]\<close> whenever that interval is not empty.  That the
  draws are uniform on \<open>[0,1)\<close> is numpy's contract for \<open>np.random.rand\<close>.
\<close>

theorem update_velocity_formula:
  assumes "length (velocity self) = n" "length (position self) = n"
    "length (pbest_position self) = n" "length gb = n" "length mn = n" "length mx = n"
  shows "\<exists>v. update_velocity self cn wv a1 a2 gb mn mx u k = Inr (self\<lparr>velocity := v\<rparr>, k + 2)
     \<and> length v = n
     \<and> (\<forall>i<n. v ! i =
           min (max (cn * (wv * velocity self ! i
                            + a1 * u k * (pbest_position self ! i - position self ! i)
                            + a2 * u (k + 1) * (gb ! i - position self ! i)))
                    (mn ! i))
               (mx ! i))
     \<and> (\<forall>i<n. mn ! i \<le> mx ! i \<longrightarrow> mn ! i \<le> v ! i \<and> v ! i \<le> mx ! i)"
proof -
  let ?v = "map2 min (map2 max (map (\<lambda>t. cn * t)
      (map2 (+) (map2 (+) (map (\<lambda>v. wv * v) (velocity self))
                 (map (\<lambda>d. a1 * u k * d) (map2 (-) (pbest_position self) (position self))))
            (map (\<lambda>d. a2 * u (k + 1) * d) (map2 (-) gb (position self))))) mn) mx"
  have run: "update_velocity self cn wv a1 a2 gb mn mx u k = Inr (self\<lparr>velocity := ?v\<rparr>, k + 2)"
    by (rule update_velocity_run [OF assms])
  have len: "length ?v = n"
    using assms by simp
  have val: "\<forall>i<n. ?v ! i =
           min (max (cn * (wv * velocity self ! i
                            + a1 * u k * (pbest_position self ! i - position self ! i)
                            + a2 * u (k + 1) * (gb ! i - position self ! i)))
                    (mn ! i))
               (mx ! i)"
    using assms by simp
  have "\<forall>i<n. mn ! i \<le> mx ! i \<longrightarrow> mn ! i \<le> ?v ! i \<and> ?v ! i \<le> mx ! i"
    using val by auto
  with run len val show ?thesis
    by blast
qed

theorem update_velocity_formula_witness:
  "\<exists>v. update_velocity demo_particle 1 (1 / 2) 2 2 [1, 1] [- 1, - 1] [1, 1] demo_draws 3
          = Inr (demo_particle\<lparr>velocity := v\<rparr>, 5)
     \<and> v ! 0 = min (max (1 * (1 / 2 * 3 + 2 * demo_draws 3 * (0 - 1) + 2 * demo_draws 4 * (1 - 1))) (- 1)) 1
     \<and> v ! 1 = min (max (1 * (1 / 2 * (- 4) + 2 * demo_draws 3 * (2 - 2) + 2 * demo_draws 4 * (1 - 2))) (- 1)) 1
     \<and> v = [9 / 10, - 1]"
proof -
  obtain v where v: "update_velocity demo_particle 1 (1 / 2) 2 2 [1, 1] [- 1, - 1] [1, 1] demo_draws 3
          = Inr (demo_particle\<lparr>velocity := v\<rparr>, 3 + 2)"
    "length v = 2"
    "\<forall>i<2. v ! i =
           min (max (1 * (1 / 2 * velocity demo_particle ! i
                            + 2 * demo_draws 3 * (pbest_position demo_particle ! i - position demo_particle ! i)
                            + 2 * demo_draws (3 + 1) * ([1, 1] ! i - position demo_particle ! i)))
                    ([- 1, - 1] ! i))
               ([1, 1] ! i)"
    using update_velocity_formula [of demo_particle 2 "[1, 1]" "[- 1, - 1]" "[1, 1]" 1 "1 / 2" 2 2 demo_draws 3]
    by (auto simp add: demo_particle_def)
  have v0: "v ! 0 = 9 / 10" and v1: "v ! 1 = - 1"
    using v(3) by (simp_all add: demo_particle_def demo_draws_def)
  have "v = [v ! 0, v ! 1]"
    using v(2) by (cases v; cases "tl v") auto
  then have "v = [9 / 10, - 1]" using v0 v1 by simp
  then show ?thesis
    using v(1) by (simp add: demo_draws_def)
qed

section \<open>The range of positions\<close>

text \<open>
  Claim C3, as amended.  With bounds of the particle's length and
  \<open>varmin[i] \<le> varmax[i]\<close> in every dimension, every call of \<open>update_position\<close>
  returns, and the new position lies in \<open>[varmin[i], varmax[i]]\<close> in continuous mode and
  in \<open>{0, 1}\<close> in binary mode.  The claim as written says that in binary mode the
  position is in \<open>{0, 1}\<close> at all times; that fails between \<open>initial_position\<close> and
  the first update, where the position is a raw draw from \<open>[0,1)\<close>
  (\<open>binary_initial_position_is_not_binary\<close>).
\<close>

theorem update_position_range:
  assumes "length (position self) = n" "length (velocity self) = n"
    "length vmin = n" "length vmax = n" "\<forall>i<n. vmin ! i \<le> vmax ! i"
  shows "\<exists>q k'. update_position self vmin vmax B u k = Inr (q, k')
     \<and> length (position q) = n
     \<and> (if truthy B then (\<forall>i<n. position q ! i = 0 \<or> position q ! i = 1)
        else (\<forall>i<n. vmin ! i \<le> position q ! i \<and> position q ! i \<le> vmax ! i))"
  using assms
  by (auto simp add: update_position_def Let_def broadcast2_same np_max2_same np_min2_same)

theorem update_position_range_witness:
  "\<exists>q k'. update_position demo_particle [0, 0] [2, 2] (PyInt 0) demo_draws 3 = Inr (q, k')
     \<and> position q = [2, 0]"
proof -
  obtain q k' where q: "update_position demo_particle [0, 0] [2, 2] (PyInt 0) demo_draws 3 = Inr (q, k')"
    using update_position_range [of demo_particle 2 "[0, 0]" "[2, 2]" "PyInt 0" demo_draws 3]
    by (auto simp add: demo_particle_def less_Suc_eq numeral_2_eq_2)
  then have "position q = [2, 0]"
    by (auto simp add: update_position_def truthy_def demo_particle_def broadcast2_def
        np_max2_def np_min2_def)
  with q show ?thesis by blast
qed

theorem binary_initial_position_is_not_binary:
  "initial_position Particle [0, 0] [1, 1] (PyInt 1) demo_draws 3 =
     Inr (\<lparr>position = [3 / 10, 4 / 10], velocity = [5 / 10, 6 / 10],
           pbest_position = [3 / 10, 4 / 10], pbest_value = PInf\<rparr>, 7)
   \<and> (3 / 10 :: real) \<notin> {0, 1}"
  by (simp add: initial_position_def Particle_def truthy_def np_random_uniform_def pick_def
      demo_draws_def upt_rec)

section \<open>Bounds of different lengths\<close>

text \<open>
  Claim C8, as amended.  \<open>PSO\<close> checks nothing itself; what happens to \<open>varmin\<close>
  and \<open>varmax\<close> of different lengths is decided by numpy, which broadcasts an array
  of length one in arithmetic but not in \<open>np.random.uniform\<close> against the size
  \<open>len(varmin)\<close>, nor in \<open>np.max([a, b], axis=0)\<close>.  The run raises, and truncates
  nothing, in each of these cases:

    \<^item> neither bound has length one (lengths 2 and 3, say): \<open>varmax - varmin\<close> raises
      before a particle is created;

    \<^item> \<open>varmin\<close> has length one and the swarm is not empty: the first
      \<open>initial_position\<close> raises, in continuous and in binary mode;

    \<^item> \<open>varmax\<close> has length one, the mode is continuous, the swarm is not empty and
      \<open>maxit\<close> is at least 1: the first \<open>update_position\<close> raises.

  The exception is \<open>ValueError\<close>, or \<open>KeyError\<close> when \<open>con\<close> or
  \<open>velocity_limit_scale\<close> is still missing after defaulting, a line that comes first.
  \<open>n_part\<close>, \<open>maxit\<close> and \<open>BPSO\<close> are read after defaulting, so a caller who
  leaves them out is covered.

  The claim as written covers every pair of different lengths.  It fails when
  \<open>varmax\<close> has length one and the mode is binary, where \<open>update_position\<close> does
  not look at the bounds: \<open>binary_short_varmax_runs\<close> is a run on bounds of lengths
  3 and 1 that completes its iteration and returns a result.  It also fails in
  continuous mode when no iteration runs (\<open>short_varmax_is_broadcast\<close>, with
  \<open>maxit = 0\<close>).
\<close>

theorem mismatched_bounds_raise:
  assumes "length (problem_varmin P) \<noteq> length (problem_varmax P)"
    and "(length (problem_varmin P) \<noteq> 1 \<and> length (problem_varmax P) \<noteq> 1) \<or>
         (length (problem_varmin P) = 1 \<and>
            (\<exists>n. default_PSO_params p ''n_part'' = Some (PyInt n) \<and> 1 \<le> n)) \<or>
         (length (problem_varmax P) = 1 \<and>
            (\<exists>n. default_PSO_params p ''n_part'' = Some (PyInt n) \<and> 1 \<le> n) \<and>
            (\<exists>mi. default_PSO_params p ''maxit'' = Some (PyInt mi) \<and> 1 \<le> mi) \<and>
            (\<exists>b. default_PSO_params p ''BPSO'' = Some b \<and> \<not> truthy b))"
  shows "PSO P p a u =
     Inl (if default_PSO_params p ''con'' = None \<or>
             default_PSO_params p ''velocity_limit_scale'' = None
          then KeyError else ValueError)"
proof -
  consider "default_PSO_params p ''con'' = None"
    | "default_PSO_params p ''con'' \<noteq> None" "default_PSO_params p ''velocity_limit_scale'' = None"
    | "default_PSO_params p ''con'' \<noteq> None" "default_PSO_params p ''velocity_limit_scale'' \<noteq> None"
    by blast
  then show ?thesis
  proof cases
    case 1
    then show ?thesis by (simp add: PSO_def PSO_run_no_con)
  next
    case 2
    then show ?thesis by (simp add: PSO_def PSO_run_def PSO_setup_no_scale)
  next
    case 3
    from assms(2) consider
      (neither) "length (problem_varmin P) \<noteq> 1" "length (problem_varmax P) \<noteq> 1"
      | (varmin) n where "length (problem_varmin P) = 1"
          "default_PSO_params p ''n_part'' = Some (PyInt n)" "1 \<le> n"
      | (varmax) n mi b where "length (problem_varmax P) = 1"
          "default_PSO_params p ''n_part'' = Some (PyInt n)" "1 \<le> n"
          "default_PSO_params p ''maxit'' = Some (PyInt mi)" "1 \<le> mi"
          "default_PSO_params p ''BPSO'' = Some b" "\<not> truthy b"
      by blast
    then have "PSO_run P p a u = Inl ValueError"
    proof cases
      case neither
      then have "broadcast2 (-) (problem_varmax P) (problem_varmin P) = Inl ValueError"
        using assms(1) by (simp add: broadcast2_def)
      then show ?thesis
        by (simp add: PSO_run_def PSO_setup_shape_error [OF 3])
    next
      case varmin
      then have "length (problem_varmax P) \<noteq> 1"
        using assms(1) by simp
      then show ?thesis
        by (simp add: PSO_run_def PSO_setup_short_varmin [OF 3 varmin(2,3,1)])
    next
      case varmax
      then have "length (problem_varmin P) \<noteq> 1"
        using assms(1) by simp
      then show ?thesis
        by (rule PSO_run_short_varmax(2) [OF 3(1) varmax(2-7,1)])
    qed
    then show ?thesis
      using 3 by (simp add: PSO_def)
  qed
qed

theorem mismatched_bounds_raise_witness:
  "PSO ragged_problem demo_params () demo_draws = Inl ValueError \<and>
   PSO short_varmin_problem demo_params () demo_draws = Inl ValueError \<and>
   PSO broadcast_problem demo_params () demo_draws = Inl ValueError"
proof -
  have k: "default_PSO_params demo_params ''con'' = Some (PyInt 1)"
    "default_PSO_params demo_params ''velocity_limit_scale'' = Some (PyFloat (2 / 10))"
    "default_PSO_params demo_params ''n_part'' = Some (PyInt 30)"
    "default_PSO_params demo_params ''maxit'' = Some (PyInt 15)"
    "default_PSO_params demo_params ''BPSO'' = Some (PyInt 0)"
    by (simp_all add: default_value default_con_value default_velocity_limit_scale_value
        BPSO_after_defaulting demo_params_def py_eq_def)
  have "PSO ragged_problem demo_params () demo_draws = Inl ValueError"
    using mismatched_bounds_raise [of ragged_problem demo_params "()" demo_draws]
    by (simp add: ragged_problem_def k)
  moreover have "PSO short_varmin_problem demo_params () demo_draws = Inl ValueError"
    using mismatched_bounds_raise [of short_varmin_problem demo_params "()" demo_draws]
    by (simp add: short_varmin_problem_def k)
  moreover have "PSO broadcast_problem demo_params () demo_draws = Inl ValueError"
    using mismatched_bounds_raise [of broadcast_problem demo_params "()" demo_draws]
    by (simp add: broadcast_problem_def k truthy_def)
  ultimately show ?thesis by blast
qed

theorem binary_short_varmax_runs:
  "PSO broadcast_problem binary_step_params () demo_draws =
     Inr (Fin (3 / 10), [0, 1 / 10, 2 / 10], [Fin (3 / 10), Fin (3 / 10)])"
proof -
  define L :: "unit ctx" where "L = \<lparr>cost_function = problem_cost_function broadcast_problem, args = (),
               varmin = problem_varmin broadcast_problem, varmax = problem_varmax broadcast_problem,
               params = default_PSO_params binary_step_params, con = as_real (PyInt 1),
               c1 = as_real (PyFloat (205 / 100)), c2 = as_real (PyFloat (205 / 100)),
               wdamp = as_real (PyInt 1),
               min_velocity = map uminus (map (\<lambda>x. as_real (PyInt 1) * x) [1, 1, 1]),
               max_velocity = map (\<lambda>x. as_real (PyInt 1) * x) [1, 1, 1], draws = demo_draws\<rparr>"
  define q where "q = \<lparr>position = [0, 1 / 10, 2 / 10], velocity = [3 / 10, 4 / 10, 5 / 10],
       pbest_position = [0, 1 / 10, 2 / 10], pbest_value = Fin (3 / 10)\<rparr>"
  define s1 where "s1 = \<lparr>particles_vector = [q], gbest_value = Fin (3 / 10),
       gbest_position = [0, 1 / 10, 2 / 10], best_costs = [], w = 1, particle_debug = [], rng = 6,
       iterations = 0\<rparr>"
  define s0 where "s0 = s1\<lparr>best_costs := [Fin (3 / 10), Fin 0]\<rparr>"
  have B: "lookup (params L) ''BPSO'' = Inr (PyInt 1)"
    by (simp add: L_def lookup_def BPSO_after_defaulting binary_step_params_def)
  have E: "lookup (params L) ''early_stopping'' = Inr (PyInt 0)"
    by (simp add: L_def lookup_def default_value binary_step_params_def)
  have ip: "initial_position Particle (varmin L) (varmax L) (PyInt 1) (draws L) 0 =
      Inr (\<lparr>position = [0, 1 / 10, 2 / 10], velocity = [3 / 10, 4 / 10, 5 / 10],
            pbest_position = [0, 1 / 10, 2 / 10], pbest_value = PInf\<rparr>, 6)"
    by (simp add: L_def broadcast_problem_def initial_position_def truthy_def
        np_random_uniform_def pick_def Particle_def demo_draws_def upt_rec)
  have sb: "seed_bests L 0 \<lparr>position = [0, 1 / 10, 2 / 10], velocity = [3 / 10, 4 / 10, 5 / 10],
            pbest_position = [0, 1 / 10, 2 / 10], pbest_value = PInf\<rparr>
            (start_state 1 1\<lparr>rng := 6\<rparr>) = s1"
    by (simp add: seed_bests_def Let_def start_state_def s1_def q_def L_def broadcast_problem_def
        less_xreal_def)
  have init: "efold (init_particle L) [0..<nat 1] (start_state (nat 1) (as_real (PyInt 1))) = Inr s1"
    using B ip sb by (simp add: init_particle_def start_state_def)
  have stp: "PSO_setup broadcast_problem binary_step_params () demo_draws =
     Inr (L, s1\<lparr>best_costs := (replicate (nat 1 + 1) (Fin 0))[0 := gbest_value s1]\<rparr>, nat 1)"
    by (rule PSO_setup_eval [OF _ _ _ _ _ _ _ _ _ _ L_def init])
       (simp_all add: default_value default_con_value default_velocity_limit_scale_value
          binary_step_params_def broadcast_problem_def py_eq_def broadcast2_def)
  have stp': "PSO_setup broadcast_problem binary_step_params () demo_draws = Inr (L, s0, 1)"
    unfolding stp by (simp add: s0_def s1_def)
  have ex: "examine_particles [q] [0, 1 / 10, 2 / 10] = Inr (1, [0])"
    by (simp add: examine_particles_def examine_one_def broadcast2_def q_def)
  have uv: "update_velocity q 1 1 (205 / 100) (205 / 100) [0, 1 / 10, 2 / 10]
       [- 1, - 1, - 1] [1, 1, 1] demo_draws 6 = Inr (q, 8)"
    by (simp add: update_velocity_def Let_def broadcast2_def np_max2_def np_min2_def q_def)
  have sg: "\<not> 8 / 10 < sigmoid (3 / 10)" "\<not> 9 / 10 < sigmoid (4 / 10)" "0 < sigmoid (5 / 10)"
    using sigmoid_upper [of "3 / 10"] sigmoid_upper [of "4 / 10"] sigmoid_pos [of "5 / 10"]
    by simp_all
  have up: "update_position q [0, 0, 0] [1] (PyInt 1) demo_draws 8 =
       Inr (q\<lparr>position := [0, 0, 1]\<rparr>, 11)"
    using sg by (simp add: update_position_def Let_def truthy_def q_def demo_draws_def upt_rec)
  have Lf: "con L = 1" "c1 L = 205 / 100" "c2 L = 205 / 100" "wdamp L = 1"
    "varmin L = [0, 0, 0]" "varmax L = [1]" "min_velocity L = [- 1, - 1, - 1]"
    "max_velocity L = [1, 1, 1]" "draws L = demo_draws"
    by (simp_all add: L_def broadcast_problem_def)
  have sf: "particles_vector s0 = [q]" "gbest_position s0 = [0, 1 / 10, 2 / 10]"
    "gbest_value s0 = Fin (3 / 10)" "best_costs s0 = [Fin (3 / 10), Fin 0]" "w s0 = 1"
    "particle_debug s0 = []" "rng s0 = 6"
    by (simp_all add: s0_def s1_def)
  have cost: "cost_function L [0, 0, 1] x = 1" for x
    by (simp add: L_def broadcast_problem_def)
  have cc: "compare_cost L 0 (q\<lparr>position := [0, 0, 1]\<rparr>) t =
      t\<lparr>particles_vector := (particles_vector t)[0 := q\<lparr>position := [0, 0, 1]\<rparr>]\<rparr>" for t
    by (simp add: compare_cost_def Let_def cost q_def less_xreal_def)
  have ps: "particle_step L 0 (s0\<lparr>particle_debug := [(1, [0])]\<rparr>) =
      Inr (s0\<lparr>particle_debug := [(1, [0])], rng := 11,
              particles_vector := [q\<lparr>position := [0, 0, 1]\<rparr>]\<rparr>)"
    unfolding particle_step_def
    using uv up by (simp add: Lf sf B cc)
  have es: "early_stop L 0 bc = Inr False" for bc
    by (simp add: early_stop_def E truthy_def)
  have it: "iteration L 0 s0 =
      Inr (s0\<lparr>particle_debug := [(1, [0])], rng := 11,
              particles_vector := [q\<lparr>position := [0, 0, 1]\<rparr>],
              best_costs := [Fin (3 / 10), Fin (3 / 10)], w := 1, iterations := 1\<rparr>, False)"
    unfolding iteration_def Let_def
    using ex ps by (simp add: sf es setitem_def norm_index_def Lf)
  show ?thesis
    unfolding PSO_def PSO_run_def stp' using it by (simp add: s0_def s1_def)
qed

theorem short_varmax_is_broadcast:
  "PSO broadcast_problem single_params () demo_draws =
     Inr (Fin (3 / 10), [0, 1 / 10, 2 / 10], [Fin (3 / 10)])"
proof -
  define L :: "unit ctx" where "L = \<lparr>cost_function = problem_cost_function broadcast_problem, args = (),
               varmin = problem_varmin broadcast_problem, varmax = problem_varmax broadcast_problem,
               params = default_PSO_params single_params, con = as_real (PyInt 1),
               c1 = as_real (PyFloat (205 / 100)), c2 = as_real (PyFloat (205 / 100)),
               wdamp = as_real (PyInt 1),
               min_velocity = map uminus (map (\<lambda>x. as_real (PyFloat (2 / 10)) * x) [1, 1, 1]),
               max_velocity = map (\<lambda>x. as_real (PyFloat (2 / 10)) * x) [1, 1, 1], draws = demo_draws\<rparr>"
  define q where "q = \<lparr>position = [0, 1 / 10, 2 / 10], velocity = [3 / 10, 4 / 10, 5 / 10],
       pbest_position = [0, 1 / 10, 2 / 10], pbest_value = Fin (3 / 10)\<rparr>"
  define s1 where "s1 = \<lparr>particles_vector = [q], gbest_value = Fin (3 / 10),
       gbest_position = [0, 1 / 10, 2 / 10], best_costs = [], w = 1, particle_debug = [], rng = 6,
       iterations = 0\<rparr>"
  have B: "lookup (params L) ''BPSO'' = Inr (PyInt 0)"
    by (simp add: L_def lookup_def BPSO_after_defaulting single_params_def)
  have ip: "initial_position Particle (varmin L) (varmax L) (PyInt 0) (draws L) 0 =
      Inr (\<lparr>position = [0, 1 / 10, 2 / 10], velocity = [3 / 10, 4 / 10, 5 / 10],
            pbest_position = [0, 1 / 10, 2 / 10], pbest_value = PInf\<rparr>, 6)"
    by (simp add: L_def broadcast_problem_def initial_position_def truthy_def
        np_random_uniform_def pick_def Particle_def demo_draws_def upt_rec)
  have sb: "seed_bests L 0 \<lparr>position = [0, 1 / 10, 2 / 10], velocity = [3 / 10, 4 / 10, 5 / 10],
            pbest_position = [0, 1 / 10, 2 / 10], pbest_value = PInf\<rparr>
            (start_state 1 1\<lparr>rng := 6\<rparr>) = s1"
    by (simp add: seed_bests_def Let_def start_state_def s1_def q_def L_def broadcast_problem_def
        less_xreal_def)
  have init: "efold (init_particle L) [0..<nat 1] (start_state (nat 1) (as_real (PyInt 1))) = Inr s1"
    using B ip sb by (simp add: init_particle_def start_state_def)
  have stp: "PSO_setup broadcast_problem single_params () demo_draws =
     Inr (L, s1\<lparr>best_costs := (replicate (nat 0 + 1) (Fin 0))[0 := gbest_value s1]\<rparr>, nat 0)"
    by (rule PSO_setup_eval [OF _ _ _ _ _ _ _ _ _ _ L_def init])
       (simp_all add: default_value default_con_value default_velocity_limit_scale_value
          single_params_def broadcast_problem_def py_eq_def broadcast2_def)
  show ?thesis
    unfolding PSO_def PSO_run_def stp by (simp add: s1_def)
qed

section \<open>The best position of a binary run\<close>

text \<open>
  Claim C10.  In binary mode (\<open>BPSO\<close> is 1, or any other value Python takes for
  true) with at least one particle, the initial position of particle \<open>i\<close> is the
  block of raw draws \<open>block u D i\<close>, not thresholded, and the particle's best is
  seeded with that position and the cost there.  \<open>best_costs[0]\<close> is the least of
  these costs, attained at some particle \<open>j\<close>.  Whenever the returned
  \<open>gbest_value\<close> still equals \<open>best_costs[0]\<close> (no iteration improved on it;
  always so when \<open>maxit = 0\<close>), the returned \<open>gbest_position\<close> is that block of
  draws, so its components are numbers of \<open>[0,1)\<close> that need not be 0 or 1.
  \<open>BPSO\<close> and \<open>n_part\<close> are read after defaulting, so a run that leaves \<open>n_part\<close>
  to its default of 15 is covered.  The two hypotheses on \<open>PSO_setup\<close> and
  \<open>main_loop\<close> say that the run returns, which it does only if \<open>con\<close> is
  supplied.
\<close>

theorem binary_best_position_is_raw_draws:
  assumes "PSO_setup P p a u = Inr (L, s0, m)" and "main_loop L [0..<m] s0 = Inr s"
    and "default_PSO_params p ''BPSO'' = Some b" "truthy b"
    and "default_PSO_params p ''n_part'' = Some (PyInt n)" "1 \<le> n"
  shows "PSO P p a u = Inr (gbest_value s, gbest_position s, best_costs s) \<and>
         (\<forall>i<nat n.
            position (particles_vector s0 ! i) = block u (length (problem_varmin P)) i \<and>
            pbest_position (particles_vector s0 ! i) = block u (length (problem_varmin P)) i \<and>
            pbest_value (particles_vector s0 ! i) =
              Fin (problem_cost_function P (block u (length (problem_varmin P)) i) a)) \<and>
         (\<exists>j<nat n.
            best_costs s ! 0 = Fin (problem_cost_function P (block u (length (problem_varmin P)) j) a) \<and>
            (gbest_value s = best_costs s ! 0 \<longrightarrow>
               gbest_position s = block u (length (problem_varmin P)) j))"
proof -
  from PSO_setup_binary [OF assms(1,3,4,5,6)] obtain j where j: "j < nat n"
    "gbest_position s0 = block u (length (problem_varmin P)) j"
    "gbest_value s0 = Fin (problem_cost_function P (block u (length (problem_varmin P)) j) a)"
    "best_costs s0 ! 0 = gbest_value s0"
    by blast
  from main_loop_keeps_initial_best [OF assms(2)] have
    k: "gbest_value s = gbest_value s0 \<longrightarrow> gbest_position s = gbest_position s0"
    "best_costs s ! 0 = best_costs s0 ! 0"
    by simp_all
  have run: "PSO P p a u = Inr (gbest_value s, gbest_position s, best_costs s)"
    using assms(1,2) by (simp add: PSO_def PSO_run_def)
  have best: "\<exists>j<nat n.
            best_costs s ! 0 = Fin (problem_cost_function P (block u (length (problem_varmin P)) j) a) \<and>
            (gbest_value s = best_costs s ! 0 \<longrightarrow>
               gbest_position s = block u (length (problem_varmin P)) j)"
    using j k by auto
  show ?thesis
    using run PSO_setup_binary_particles [OF assms(1,3,4,5)] best by blast
qed

theorem binary_best_position_is_raw_draws_witness:
  "binary_swarm_params ''n_part'' = None \<and>
   (\<exists>gv gp bc. PSO demo_problem binary_swarm_params () demo_draws = Inr (gv, gp, bc) \<and>
      gp ! 1 \<notin> {0, 1}) \<and>
   (\<exists>gv bc. PSO demo_problem binary_params () demo_draws = Inr (gv, [0, 1 / 10], bc))"
proof -
  have one: "\<exists>gv gp bc j. PSO demo_problem q () demo_draws = Inr (gv, gp, bc) \<and>
      gp = block demo_draws 2 j \<and> j < nat n"
    if q: "default_PSO_params q ''maxit'' = Some (PyInt 0)"
      "default_PSO_params q ''n_part'' = Some (PyInt n)" "1 \<le> n"
      "default_PSO_params q ''con'' \<noteq> None"
      "default_PSO_params q ''velocity_limit_scale'' \<noteq> None"
      "default_PSO_params q ''early_stopping_rounds'' = Some (PyInt 10)"
      "default_PSO_params q ''BPSO'' = Some (PyInt 1)"
    for q n
  proof -
    have "\<exists>L s0 s. PSO_setup demo_problem q () demo_draws = Inr (L, s0, nat 0) \<and>
        main_loop L [0..<nat 0] s0 = Inr s \<and> PSO_run demo_problem q () demo_draws = Inr s"
      by (rule PSO_run_total [OF q(1) _ q(2) q(4) q(5) q(6)]) (simp_all add: demo_problem_def)
    then obtain L s0 s where stp: "PSO_setup demo_problem q () demo_draws = Inr (L, s0, 0)"
      and loop: "main_loop L [0..<0] s0 = Inr s"
      by auto
    have "trace_ok 0 s"
      by (rule main_loop_trace [OF loop PSO_setup_facts(1,2) [OF stp]])
    then have top: "gbest_value s = best_costs s ! 0"
      by (auto simp add: trace_ok_def)
    have "PSO demo_problem q () demo_draws =
            Inr (gbest_value s, gbest_position s, best_costs s) \<and>
           (\<forall>i<nat n.
              position (particles_vector s0 ! i) = block demo_draws (length (problem_varmin demo_problem)) i \<and>
              pbest_position (particles_vector s0 ! i) = block demo_draws (length (problem_varmin demo_problem)) i \<and>
              pbest_value (particles_vector s0 ! i) =
                Fin (problem_cost_function demo_problem (block demo_draws (length (problem_varmin demo_problem)) i) ())) \<and>
           (\<exists>j<nat n.
              best_costs s ! 0 = Fin (problem_cost_function demo_problem
                 (block demo_draws (length (problem_varmin demo_problem)) j) ()) \<and>
              (gbest_value s = best_costs s ! 0 \<longrightarrow>
                 gbest_position s = block demo_draws (length (problem_varmin demo_problem)) j))"
      by (rule binary_best_position_is_raw_draws [OF stp loop q(7) _ q(2,3)])
         (simp add: truthy_def)
    then obtain j where "PSO demo_problem q () demo_draws =
            Inr (gbest_value s, gbest_position s, best_costs s)"
      and "j < nat n" "gbest_position s = block demo_draws (length (problem_varmin demo_problem)) j"
      using top by auto
    moreover have "length (problem_varmin demo_problem) = 2"
      by (simp add: demo_problem_def)
    ultimately show ?thesis
      by auto
  qed
  have a: "binary_swarm_params ''n_part'' = None"
    by (simp add: binary_swarm_params_def)
  have "\<exists>gv gp bc j. PSO demo_problem binary_swarm_params () demo_draws = Inr (gv, gp, bc) \<and>
      gp = block demo_draws 2 j \<and> j < nat 15"
    by (rule one)
       (simp_all add: default_value default_con_value default_velocity_limit_scale_value
          BPSO_after_defaulting binary_swarm_params_def py_eq_def)
  then have b: "\<exists>gv gp bc. PSO demo_problem binary_swarm_params () demo_draws = Inr (gv, gp, bc) \<and>
      gp ! 1 \<notin> {0, 1}"
    using demo_block_not_binary by blast
  have "\<exists>gv gp bc j. PSO demo_problem binary_params () demo_draws = Inr (gv, gp, bc) \<and>
      gp = block demo_draws 2 j \<and> j < nat 1"
    by (rule one)
       (simp_all add: default_value default_con_value default_velocity_limit_scale_value
          BPSO_after_defaulting binary_params_def py_eq_def)
  then have c: "\<exists>gv bc. PSO demo_problem binary_params () demo_draws = Inr (gv, [0, 1 / 10], bc)"
    by (auto simp add: block_def demo_draws_def upt_rec numeral_2_eq_2)
  show ?thesis using a b c by blast
qed

section \<open>Early stopping returns at the first stalled iteration\<close>



section \<open>The recorded best position is shared, and never changed\<close>

text \<open>
  Claim C9, as amended.  When a particle's new cost improves the global best, the
  recorded \<open>gbest_position\<close> is not a copy: it is the very array that the particle's
  \<open>pbest_position\<close> and \<open>position\<close> refer to (\<open>recorded_best_is_an_alias\<close> shows the
  three equal addresses on a sample).  The value behind it is nevertheless safe: every
  later update of any particle binds the particle's attributes to new arrays and leaves
  every array that already exists as it is, so the array recorded as the global best
  keeps its value.
\<close>

theorem recorded_best_is_shared_but_never_changed:
  assumes "ref_particle_step L inertia i s = Inr s1"
    and "gbest_value_at s1 < gbest_value_at s" and "i < length (particles_at s)"
    and "ref_steps L steps s1 = Inr s2"
  shows "gbest_position_at s1 = pbest_position_at (particles_at s1 ! i) \<and>
         gbest_position_at s1 = position_at (particles_at s1 ! i) \<and>
         gbest_position_at s1 < length (store s1) \<and>
         store s2 ! gbest_position_at s1 = store s1 ! gbest_position_at s1"
proof -
  note a = ref_particle_step_alias [OF assms(1-3)]
  from ref_steps_store [OF assms(4)] obtain new where "store s2 = store s1 @ new"
    by blast
  then have "store s2 ! gbest_position_at s1 = store s1 ! gbest_position_at s1"
    using a by (simp add: nth_append)
  then show ?thesis
    using a by simp
qed

theorem recorded_best_is_shared_but_never_changed_witness:
  "ref_particle_step sample_ctx 1 0 sample_refs = Inr sample_refs_after \<and>
   gbest_value_at sample_refs_after < gbest_value_at sample_refs \<and>
   ref_steps sample_ctx [(1, 0)] sample_refs_after = Inr sample_refs_later \<and>
   position_at (particles_at sample_refs_later ! 0) = 7 \<and>
   gbest_position_at sample_refs_after = 5 \<and>
   store sample_refs_after ! 5 = [4] \<and> store sample_refs_later ! 5 = [4]"
proof -
  have 1: "ref_particle_step sample_ctx 1 0 sample_refs = Inr sample_refs_after"
    using sample_step_1 by (simp add: sample_refs_after_def)
  have 2: "ref_steps sample_ctx [(1, 0)] sample_refs_after = Inr sample_refs_later"
    using sample_step_2 by (simp add: ref_steps_def sample_refs_after_def sample_refs_later_def)
  have 3: "gbest_value_at sample_refs_after < gbest_value_at sample_refs"
    by (simp add: sample_refs_after_def sample_refs_def less_xreal_def)
  have 4: "0 < length (particles_at sample_refs)"
    by (simp add: sample_refs_def)
  show ?thesis
    using recorded_best_is_shared_but_never_changed [OF 1 3 4 2] 1 2 3
    by (simp add: sample_refs_after_def sample_refs_later_def)
qed

theorem recorded_best_is_an_alias:
  "ref_particle_step sample_ctx 1 0 sample_refs = Inr sample_refs_after \<and>
   gbest_position_at sample_refs_after = pbest_position_at (particles_at sample_refs_after ! 0) \<and>
   gbest_position_at sample_refs_after = position_at (particles_at sample_refs_after ! 0)"
  using sample_step_1 by (simp add: sample_refs_after_def)

end
